theory Spec2Isabelle
  imports Main "HOL-Library.Word"
begin

unbundle bit_operations_syntax

section \<open>The Hawk disk controller (hawk.c)\<close>

text \<open>
  The controller's file-scope variables become one record. The flags are \<open>uint8_t\<close> in
  the source and stay bytes here. \<open>hawk_fd\<close> is the array of \<open>NUM_HAWK_UNITS\<close> file
  descriptors; the model reads it only below that bound, as \<open>hawk_get_fd\<close> does.
  Trace output to stderr is not part of the state and is left out everywhere.
\<close>

type_synonym u8 = "8 word"
type_synonym u16 = "16 word"
type_synonym u32 = "32 word"

definition NUM_HAWK_UNITS :: nat where
  "NUM_HAWK_UNITS = 8"

record hawk_state =
  hawk_unit :: u8
  hawk_sech :: u8
  hawk_secl :: u8
  hawk_busy :: u8
  hawk_on_track :: u8
  hawk_data_error :: u8
  hawk_seek_error :: u8
  hawk_ready :: u8
  hawk_fd :: "nat \<Rightarrow> int"
  hawk_dma :: nat

text \<open>
  Modelled from the spec: \<open>hawk_set_dma\<close> is declared in dma.h, which is not among the
  sources. The spec calls it a request to the external DMA engine (a read-direction or a
  write-direction transfer, completion signalled later), so the model records the last
  requested mode in the field \<open>hawk_dma\<close> and touches nothing else.
\<close>

definition hawk_set_dma :: "nat \<Rightarrow> hawk_state \<Rightarrow> hawk_state" where
  "hawk_set_dma m s = s\<lparr>hawk_dma := m\<rparr>"

text \<open>The statics are zero-initialised; \<open>hawk_init\<close> stores what \<open>open\<close> returned.\<close>

definition hawk_init :: "(nat \<Rightarrow> int) \<Rightarrow> hawk_state" where
  "hawk_init opened =
     \<lparr>hawk_unit = 0, hawk_sech = 0, hawk_secl = 0, hawk_busy = 0, hawk_on_track = 0,
      hawk_data_error = 0, hawk_seek_error = 0, hawk_ready = 0,
      hawk_fd = opened, hawk_dma = 0\<rparr>"

definition hawk_get_fd :: "hawk_state \<Rightarrow> int" where
  "hawk_get_fd s =
     (if unat (hawk_unit s) < NUM_HAWK_UNITS then hawk_fd s (unat (hawk_unit s)) else - 1)"

text \<open>
  \<open>hawk_get_status\<close>: every flag is promoted to \<open>int\<close>, shifted, and the disjunction is
  converted to \<open>uint16_t\<close>. No shift of a byte by at most 15 leaves 32 bits.
\<close>

definition hawk_get_status :: "hawk_state \<Rightarrow> u16" where
  "hawk_get_status s =
     ucast (push_bit 4 (ucast (hawk_ready s) :: u32)
        OR push_bit 5 (ucast (hawk_on_track s) :: u32)
        OR push_bit 8 (ucast (hawk_busy s) :: u32)
        OR push_bit 10 (ucast (hawk_data_error s) :: u32)
        OR push_bit 11 (ucast (hawk_data_error s) :: u32)
        OR push_bit 12 (ucast (hawk_data_error s) :: u32)
        OR push_bit 13 (ucast (hawk_data_error s) :: u32)
        OR push_bit 14 (ucast (hawk_seek_error s) :: u32)
        OR push_bit 15 (ucast (hawk_data_error s) :: u32))"

text \<open>
  The locals of \<open>hawk_position\<close>. \<open>cyl\<close> is computed on promoted \<open>int\<close>s, so the shift
  of \<open>hawk_sech\<close> loses no bit. The offset is at most 26214000 and fits any \<open>off_t\<close>.
\<close>

definition hawk_sec :: "hawk_state \<Rightarrow> nat" where
  "hawk_sec s = unat (hawk_secl s AND 0x0F)"

definition hawk_head :: "hawk_state \<Rightarrow> nat" where
  "hawk_head s = (if hawk_secl s AND 0x10 \<noteq> 0 then 1 else 0)"

definition hawk_cyl :: "hawk_state \<Rightarrow> nat" where
  "hawk_cyl s =
     unat (push_bit 3 (ucast (hawk_sech s) :: u32) OR ucast (drop_bit 5 (hawk_secl s)))"

definition hawk_offset :: "hawk_state \<Rightarrow> int" where
  "hawk_offset s =
     (let offset = int (hawk_cyl s);
          offset = offset * 2;
          offset = offset + int (hawk_head s);
          offset = offset * 16;
          offset = offset + int (hawk_sec s);
          offset = offset * 400
      in offset)"

text \<open>
  The operating system is a parameter: \<open>lseek fd offset\<close> is what the call
  \<open>lseek(fd, offset, SEEK_SET)\<close> returns, \<open>- 1\<close> on failure.
\<close>

definition hawk_position :: "(int \<Rightarrow> int \<Rightarrow> int) \<Rightarrow> hawk_state \<Rightarrow> hawk_state" where
  "hawk_position lseek s =
     (let offset = hawk_offset s;
          fd = hawk_get_fd s;
          s = s\<lparr>hawk_on_track := 0\<rparr>
      in if fd \<noteq> - 1 then
           (if lseek fd offset = - 1 then s\<lparr>hawk_seek_error := 1\<rparr>
            else s\<lparr>hawk_on_track := 1\<rparr>)
         else s\<lparr>hawk_seek_error := 1\<rparr>)"

text \<open>
  \<open>hawk_read_next\<close> declares \<open>uint8_t c\<close> without initialising it and returns it on every
  path. \<open>c0\<close> is the content the local happens to have on entry. \<open>rd fd\<close> is the outcome of
  \<open>read(fd, &c, 1)\<close>: \<open>Some b\<close> when it returned 1 and stored \<open>b\<close>, \<open>None\<close> otherwise.
\<close>

definition hawk_read_next :: "(int \<Rightarrow> u8 option) \<Rightarrow> u8 \<Rightarrow> hawk_state \<Rightarrow> u8 \<times> hawk_state" where
  "hawk_read_next rd c0 s =
     (let fd = hawk_get_fd s
      in if fd = - 1 then (c0, s\<lparr>hawk_data_error := 1\<rparr>)
         else (case rd fd of
                 None \<Rightarrow> (c0, s\<lparr>hawk_data_error := 1\<rparr>)
               | Some b \<Rightarrow> (b, s)))"

text \<open>\<open>wr fd c\<close> says whether \<open>write(fd, &c, 1)\<close> returned 1.\<close>

definition hawk_write_next :: "(int \<Rightarrow> u8 \<Rightarrow> bool) \<Rightarrow> u8 \<Rightarrow> hawk_state \<Rightarrow> hawk_state" where
  "hawk_write_next wr c s =
     (let fd = hawk_get_fd s
      in if fd = - 1 then s\<lparr>hawk_data_error := 1\<rparr>
         else if \<not> wr fd c then s\<lparr>hawk_data_error := 1\<rparr>
         else s)"

definition hawk_dma_done :: "hawk_state \<Rightarrow> hawk_state" where
  "hawk_dma_done s =
     (let s = hawk_set_dma 0 s;
          s = s\<lparr>hawk_busy := 0\<rparr>
      in s\<lparr>hawk_data_error := (if hawk_on_track s = 0 then 1 else 0)\<rparr>)"

text \<open>
  \<open>hawk_cmd\<close> is two steps: it clears both error flags, then the \<open>switch\<close> runs.
  \<open>hawk_cmd_switch\<close> is the \<open>switch\<close> statement, \<open>hawk_cmd_clear\<close> the two assignments
  before it.
\<close>

definition hawk_cmd_clear :: "hawk_state \<Rightarrow> hawk_state" where
  "hawk_cmd_clear s =
     (let s = s\<lparr>hawk_data_error := 0\<rparr>
      in s\<lparr>hawk_seek_error := 0\<rparr>)"

definition hawk_cmd_switch :: "(int \<Rightarrow> int \<Rightarrow> int) \<Rightarrow> u8 \<Rightarrow> hawk_state \<Rightarrow> hawk_state" where
  "hawk_cmd_switch lseek cmd s =
     (if cmd = 0 then hawk_set_dma 1 (s\<lparr>hawk_busy := 1\<rparr>)
      else if cmd = 1 then hawk_set_dma 2 (s\<lparr>hawk_busy := 1\<rparr>)
      else if cmd = 2 then hawk_position lseek (s\<lparr>hawk_busy := 0\<rparr>)
      else if cmd = 3 then hawk_position lseek s
      else s\<lparr>hawk_busy := 0\<rparr>)"

definition hawk_cmd :: "(int \<Rightarrow> int \<Rightarrow> int) \<Rightarrow> u8 \<Rightarrow> hawk_state \<Rightarrow> hawk_state" where
  "hawk_cmd lseek cmd s = hawk_cmd_switch lseek cmd (hawk_cmd_clear s)"

definition hawk_write :: "(int \<Rightarrow> int \<Rightarrow> int) \<Rightarrow> u16 \<Rightarrow> u8 \<Rightarrow> hawk_state \<Rightarrow> hawk_state" where
  "hawk_write lseek addr val s =
     (if addr = 0xF140 then
        (let s = s\<lparr>hawk_unit := val\<rparr>
         in s\<lparr>hawk_ready := (if hawk_get_fd s \<noteq> - 1 then 1 else 0)\<rparr>)
      else if addr = 0xF141 then s\<lparr>hawk_sech := val\<rparr>
      else if addr = 0xF142 then s\<lparr>hawk_secl := val\<rparr>
      else if addr = 0xF144 \<or> addr = 0xF145 then s\<lparr>hawk_data_error := 0\<rparr>
      else if addr = 0xF148 then hawk_cmd lseek val s
      else s)"

text \<open>
  \<open>hawk_read\<close>: the status word is promoted to \<open>int\<close> before \<open>>> 8\<close> and \<open>& 0xff\<close>, and
  the result is stored in a \<open>uint8_t\<close>.
\<close>

definition hawk_read :: "u16 \<Rightarrow> hawk_state \<Rightarrow> u8" where
  "hawk_read addr s =
     (if addr = 0xF144 then ucast (drop_bit 8 (ucast (hawk_get_status s) :: u32))
      else if addr = 0xF145 then ucast ((ucast (hawk_get_status s) :: u32) AND 0xff)
      else if addr = 0xF148 then hawk_busy s
      else 0xFF)"

text \<open>Every flag the code stores is 0 or 1.\<close>

definition hawk_flags_ok :: "hawk_state \<Rightarrow> bool" where
  "hawk_flags_ok s =
     (hawk_ready s \<in> {0, 1} \<and> hawk_on_track s \<in> {0, 1} \<and> hawk_busy s \<in> {0, 1} \<and>
      hawk_data_error s \<in> {0, 1} \<and> hawk_seek_error s \<in> {0, 1})"

text \<open>
  The register pair that addresses cylinder \<open>c\<close>, head \<open>h\<close>, sector \<open>q\<close> in the layout
  the comment above \<open>hawk_position\<close> gives: nine cylinder bits, the head bit, four sector
  bits, most significant first.
\<close>

definition chs_word :: "nat \<Rightarrow> nat \<Rightarrow> nat \<Rightarrow> nat" where
  "chs_word c h q = c * 32 + h * 16 + q"

definition chs_state :: "hawk_state \<Rightarrow> nat \<Rightarrow> nat \<Rightarrow> nat \<Rightarrow> hawk_state" where
  "chs_state s c h q =
     s\<lparr>hawk_sech := of_nat (chs_word c h q div 256),
       hawk_secl := of_nat (chs_word c h q mod 256)\<rparr>"

definition hawk_chs :: "hawk_state \<Rightarrow> nat \<times> nat \<times> nat" where
  "hawk_chs s = (hawk_cyl s, hawk_head s, hawk_sec s)"

text \<open>Lexicographic order on (cylinder, head, sector).\<close>

definition chs_less :: "nat \<times> nat \<times> nat \<Rightarrow> nat \<times> nat \<times> nat \<Rightarrow> bool" where
  "chs_less a b =
     (case a of (c, h, q) \<Rightarrow> case b of (c', h', q') \<Rightarrow>
        c < c' \<or> (c = c' \<and> (h < h' \<or> (h = h' \<and> q < q'))))"

text \<open>
  Two concrete controller states: after \<open>hawk_init\<close> with a backing store for unit 0
  only, and the same controller after a Read command has been written (busy, transfer
  requested). \<open>lseek\<close> returns the new offset, as on a regular file.
\<close>

definition hawk_demo :: hawk_state where
  "hawk_demo = hawk_init (\<lambda>u. if u = 0 then 3 else - 1)"

definition hawk_reading :: hawk_state where
  "hawk_reading = hawk_write (\<lambda>fd off. off) 0xF148 0 hawk_demo"

section \<open>The MUX serial controller (mux.h, mux.c)\<close>

text \<open>
  \<open>struct MuxUnit\<close> and the file-scope variables of mux.c. The array \<open>mux\<close> has
  \<open>NUM_MUX_UNITS\<close> elements: the model keeps it as a function of the index and makes
  every access whose index is computed from a register value or an address go through
  \<open>mux_unit\<close>, which faults outside \<open>0 .. NUM_MUX_UNITS - 1\<close> (in C the access is
  undefined there). Times are \<open>int64_t\<close> nanoseconds.
\<close>

definition NUM_MUX_UNITS :: nat where
  "NUM_MUX_UNITS = 4"

definition MUX_RX_READY :: u8 where
  "MUX_RX_READY = push_bit 0 1"

definition MUX_TX_READY :: u8 where
  "MUX_TX_READY = push_bit 1 1"

definition MUX_CTS :: u8 where
  "MUX_CTS = push_bit 5 1"

definition MUX_IRQ_RX :: nat where
  "MUX_IRQ_RX = 0"

definition MUX_IRQ_TX :: nat where
  "MUX_IRQ_TX = 1"

definition MUX_UNIT_MASK :: int where
  "MUX_UNIT_MASK = 0x06"

record MuxUnit =
  in_fd :: int
  out_fd :: int
  mode :: u8
  status :: u8
  lastc :: u8
  baud :: int
  tx_done :: u8
  rx_ready_time :: int
  tx_done_time :: int

text \<open>
  Modelled from the spec: the CPU core's \<open>cpu_assert_irq\<close> and \<open>cpu_deassert_irq\<close>
  (cpu6.h) and the flag \<open>emulator_done\<close> (centurion.h) are not among the sources. The
  spec names them the external core's interrupt assert/deassert side-channel at a given
  level and the orderly global shutdown; the model appends each call to \<open>cpu_irq\<close> and
  keeps the flag. Bytes sent to an output descriptor or to stdout are appended to
  \<open>mux_out\<close> with their descriptor.
\<close>

datatype cpu_call = AssertIrq u8 | DeassertIrq u8

record mux_state =
  mux :: "nat \<Rightarrow> MuxUnit"
  irq_level :: u8
  irq_enabled :: u8
  irq_cause :: int
  poll_count :: u32
  emulator_done :: bool
  cpu_irq :: "cpu_call list"
  mux_out :: "(int \<times> u8 list) list"

definition cpu_assert_irq :: "u8 \<Rightarrow> mux_state \<Rightarrow> mux_state" where
  "cpu_assert_irq level s = s\<lparr>cpu_irq := cpu_irq s @ [AssertIrq level]\<rparr>"

definition cpu_deassert_irq :: "u8 \<Rightarrow> mux_state \<Rightarrow> mux_state" where
  "cpu_deassert_irq level s = s\<lparr>cpu_irq := cpu_irq s @ [DeassertIrq level]\<rparr>"

text \<open>
  What stops a call early: an array index outside the array, a failed \<open>assert\<close>,
  \<open>exit(1)\<close>, and a baud rate for which the symbol time is not defined (a division by
  zero, or the conversion of a non-positive quotient of doubles to \<open>uint64_t\<close>).
\<close>

datatype mux_fault = OutOfBounds int | AssertFailed | Exited | BadBaud

definition mux_unit :: "mux_state \<Rightarrow> int \<Rightarrow> mux_fault + MuxUnit" where
  "mux_unit s i =
     (if 0 \<le> i \<and> i < int NUM_MUX_UNITS then Inr (mux s (nat i)) else Inl (OutOfBounds i))"

definition mux_store :: "nat \<Rightarrow> MuxUnit \<Rightarrow> mux_state \<Rightarrow> mux_state" where
  "mux_store i m s = s\<lparr>mux := (mux s)(i := m)\<rparr>"

definition mux_reset_unit :: "MuxUnit \<Rightarrow> MuxUnit" where
  "mux_reset_unit m =
     m\<lparr>status := MUX_TX_READY, lastc := 0xFF, baud := 9600, tx_done := 0,
       rx_ready_time := 0, tx_done_time := 0\<rparr>"

definition mux_reset :: "mux_state \<Rightarrow> mux_state" where
  "mux_reset s =
     (let s = fold (\<lambda>i s. mux_store i (mux_reset_unit (mux s i)) s) [0..<NUM_MUX_UNITS] s
      in s\<lparr>irq_level := 0, irq_enabled := 0, irq_cause := - 1, poll_count := 0\<rparr>)"

text \<open>The zero-initialised statics, and \<open>mux_init\<close> on them.\<close>

definition mux_zero :: mux_state where
  "mux_zero =
     \<lparr>mux = (\<lambda>i. \<lparr>in_fd = 0, out_fd = 0, mode = 0, status = 0, lastc = 0, baud = 0,
                    tx_done = 0, rx_ready_time = 0, tx_done_time = 0\<rparr>),
      irq_level = 0, irq_enabled = 0, irq_cause = 0, poll_count = 0,
      emulator_done = False, cpu_irq = [], mux_out = []\<rparr>"

definition mux_init :: mux_state where
  "mux_init =
     mux_reset
       (fold (\<lambda>i s. mux_store i ((mux s i)\<lparr>in_fd := - 1, out_fd := - 1, mode := 0\<rparr>) s)
          [0..<NUM_MUX_UNITS] mux_zero)"

definition mux_attach :: "nat \<Rightarrow> u8 \<Rightarrow> int \<Rightarrow> int \<Rightarrow> mux_state \<Rightarrow> mux_fault + mux_state" where
  "mux_attach unit md ifd ofd s =
     (case mux_unit s (int unit) of
        Inl e \<Rightarrow> Inl e
      | Inr m \<Rightarrow> Inr (mux_store unit (m\<lparr>in_fd := ifd, out_fd := ofd, mode := md\<rparr>) s))"

text \<open>
  \<open>next_char\<close>. The outcome of \<open>read(in_fd, &c, 1)\<close> is a parameter: a byte, end of
  stream (0), \<open>- 1\<close> with \<open>EAGAIN\<close> or \<open>EWOULDBLOCK\<close>, or \<open>- 1\<close> with another error. The
  result is an \<open>unsigned char\<close> value in every case, so the model returns a byte.
\<close>

datatype read_result = ReadByte u8 | ReadEof | ReadAgain | ReadError

definition next_char :: "read_result \<Rightarrow> nat \<Rightarrow> mux_state \<Rightarrow> mux_fault + (u8 \<times> mux_state)" where
  "next_char rd unit s =
     (case mux_unit s (int unit) of
        Inl e \<Rightarrow> Inl e
      | Inr m \<Rightarrow>
          if status m AND MUX_RX_READY = 0 then Inr (lastc m, s)
          else if mode m = 0 then
            (case rd of
               ReadEof \<Rightarrow> Inr (lastc m, s\<lparr>emulator_done := True\<rparr>)
             | ReadAgain \<Rightarrow> Inr (lastc m, s)
             | ReadError \<Rightarrow> Inl Exited
             | ReadByte c \<Rightarrow>
                 (let c = (if c = 0x7F then 0x08 else c)
                  in Inr (c, mux_store unit (m\<lparr>lastc := c\<rparr>) s)))
          else
            (let c = (case rd of ReadByte c \<Rightarrow> c | _ \<Rightarrow> 0)
             in Inr (c, mux_store unit (m\<lparr>lastc := c\<rparr>) s)))"

text \<open>
  \<open>mux_assert_irq\<close> returns 0 or 1 and, when interrupts are enabled, latches the cause
  \<open>(unit << 1) | reason\<close>.
\<close>

definition mux_assert_irq :: "nat \<Rightarrow> nat \<Rightarrow> mux_state \<Rightarrow> int \<times> mux_state" where
  "mux_assert_irq unit reason s =
     (if irq_enabled s = 0 then (0, s)
      else (1, cpu_assert_irq (irq_level s) (s\<lparr>irq_cause := int (push_bit 1 unit OR reason)\<rparr>)))"

definition mux_enable_irq :: "u8 \<Rightarrow> mux_state \<Rightarrow> mux_state" where
  "mux_enable_irq enable s = s\<lparr>irq_enabled := enable\<rparr>"

text \<open>
  Deadlines. \<open>to_int64\<close> is the conversion of the unsigned 64-bit sum to \<open>int64_t\<close>.
  In \<open>mux_unit_send\<close> the symbol time is the quotient of two doubles converted to
  \<open>uint64_t\<close>: for a positive baud rate that is the integer quotient, otherwise the
  conversion is not defined.

  Modelled from the spec: \<open>ONE_SECOND_NS\<close> (scheduler.h) is not among the sources; the
  spec gives the character time as 1e9 / baud nanoseconds. \<open>get_current_time\<close> is the
  monotonic clock, a parameter \<open>now\<close> of every function that reads it.
\<close>

definition ONE_SECOND_NS :: int where
  "ONE_SECOND_NS = 1000000000"

definition to_int64 :: "int \<Rightarrow> int" where
  "to_int64 x = sint (word_of_int x :: 64 word)"

definition hex_digit :: "u8 \<Rightarrow> u8" where
  "hex_digit d = (if d < 10 then 0x30 + d else 0x37 + d)"

definition mux_unit_send :: "int \<Rightarrow> nat \<Rightarrow> u8 \<Rightarrow> mux_state \<Rightarrow> mux_fault + mux_state" where
  "mux_unit_send now unit val s =
     (case mux_unit s (int unit) of
        Inl e \<Rightarrow> Inl e
      | Inr m \<Rightarrow>
          if baud m \<le> 0 then Inl BadBaud
          else
            (let m = m\<lparr>status := status m AND NOT MUX_TX_READY\<rparr>;
                 symbol_time = 1000000000 div baud m;
                 m = m\<lparr>tx_done_time := to_int64 (now + symbol_time * 10)\<rparr>;
                 s = mux_store unit m s
             in if out_fd m = - 1 then Inr s
                else if out_fd m > 1 then
                  (let val = (if mode m = 0 then val AND 0x7F else val)
                   in Inr (s\<lparr>mux_out := mux_out s @ [(out_fd m, [val])]\<rparr>))
                else
                  (let val = val AND 0x7F
                   in if val = 0x06 then
                        Inr (s\<lparr>mux_out := mux_out s @ [(1, [0x1b, 0x5b, 0x31, 0x43])]\<rparr>)
                      else if val \<noteq> 0x08 \<and> val \<noteq> 0x0A \<and> val \<noteq> 0x0D \<and>
                              (val < 0x20 \<or> val = 0x7F) then
                        Inr (s\<lparr>mux_out := mux_out s @
                               [(1, [0x5b, hex_digit (drop_bit 4 val),
                                     hex_digit (val AND 0x0F), 0x5d])]\<rparr>)
                      else Inr (s\<lparr>mux_out := mux_out s @ [(1, [val])]\<rparr>))))"

text \<open>
  The address decoding of \<open>mux_write\<close>: the locals \<open>card\<close>, \<open>mode\<close> and \<open>unit\<close> after
  the \<open>if\<close> that separates card-wide registers (low nibble above 7) from per-port ones.
\<close>

definition mux_card :: "u16 \<Rightarrow> nat" where
  "mux_card addr = unat (drop_bit 4 addr AND 0xF)"

definition mux_write_mode :: "u16 \<Rightarrow> nat" where
  "mux_write_mode addr =
     (let md = unat (addr AND 0xf) in if md > 7 then md else md AND 1)"

definition mux_write_unit :: "u16 \<Rightarrow> nat" where
  "mux_write_unit addr =
     (let md = unat (addr AND 0xf)
      in if md > 7 then mux_card addr * 4
         else mux_card addr * 4 + unat (drop_bit 1 addr AND 0x3))"

definition mux_write :: "int \<Rightarrow> u16 \<Rightarrow> u8 \<Rightarrow> mux_state \<Rightarrow> mux_fault + mux_state" where
  "mux_write now addr val s =
     (let md = mux_write_mode addr; unit = mux_write_unit addr
      in if unit > NUM_MUX_UNITS then Inr s
         else if md = 0 then Inr s
         else if md = 1 then mux_unit_send now unit val s
         else if md = 8 then Inr s
         else if md = 0xA then Inr (s\<lparr>irq_level := val\<rparr>)
         else if md = 0xB then Inr s
         else if md = 0xC then
           (case mux_unit s (uint val - 1) of
              Inl e \<Rightarrow> Inl e
            | Inr m \<Rightarrow> Inr (mux_store (nat (uint val - 1)) (m\<lparr>tx_done := 1\<rparr>) s))
         else if md = 0xD then Inr (mux_enable_irq 0 s)
         else if md = 0xE then Inr (mux_enable_irq 1 s)
         else if md = 0xF then Inr (mux_reset (cpu_deassert_irq (irq_level s) s))
         else Inr s)"

text \<open>
  The address decoding of \<open>mux_read\<close>, and \<open>mux_read\<close>. The cause register is read
  before any decoding; its value is \<open>irq_cause\<close> converted to \<open>uint8_t\<close>.
\<close>

definition mux_read_mode :: "u16 \<Rightarrow> nat" where
  "mux_read_mode addr =
     (let md = unat (addr AND 0xf) in if md > 7 then md else md AND 1)"

definition mux_read_unit :: "u16 \<Rightarrow> nat" where
  "mux_read_unit addr =
     (let md = unat (addr AND 0xf)
      in if md > 7 then mux_card addr * 4
         else mux_card addr * 4 + (drop_bit 1 md AND 0x3))"

definition mux_read :: "read_result \<Rightarrow> u16 \<Rightarrow> mux_state \<Rightarrow> mux_fault + (u8 \<times> mux_state)" where
  "mux_read rd addr s =
     (if addr = 0xf20f then
        (if irq_cause s AND int MUX_IRQ_TX \<noteq> 0 then
           (let unit = drop_bit 1 (irq_cause s AND MUX_UNIT_MASK)
            in case mux_unit s unit of
                 Inl e \<Rightarrow> Inl e
               | Inr m \<Rightarrow>
                   Inr (word_of_int (irq_cause s), mux_store (nat unit) (m\<lparr>tx_done := 0\<rparr>) s))
         else Inr (word_of_int (irq_cause s), s))
      else
        (let md = mux_read_mode addr; unit = mux_read_unit addr
         in if unit > NUM_MUX_UNITS then Inr (0, s)
            else if md = 0 then
              (case mux_unit s (int unit) of
                 Inl e \<Rightarrow> Inl e
               | Inr m \<Rightarrow> Inr (status m OR MUX_CTS, s))
            else if md = 1 then
              (case next_char rd unit s of
                 Inl e \<Rightarrow> Inl e
               | Inr (data, s) \<Rightarrow>
                   (case mux_unit s (int unit) of
                      Inl e \<Rightarrow> Inl e
                    | Inr m \<Rightarrow>
                        Inr (data,
                             mux_store unit (m\<lparr>status := status m AND NOT MUX_RX_READY\<rparr>) s)))
            else Inr (0, s)))"

text \<open>
  \<open>mux_set_read_ready\<close> and \<open>mux_process_events\<close>, with their assertions. The division
  \<open>ONE_SECOND_NS / baud\<close> truncates; it traps for a zero baud rate.
\<close>

definition c_div :: "int \<Rightarrow> int \<Rightarrow> int" where
  "c_div a b = (if (a < 0) = (b < 0) then \<bar>a\<bar> div \<bar>b\<bar> else - (\<bar>a\<bar> div \<bar>b\<bar>))"

definition mux_set_read_ready :: "int \<Rightarrow> nat \<Rightarrow> mux_state \<Rightarrow> mux_fault + mux_state" where
  "mux_set_read_ready now unit s =
     (case mux_unit s (int unit) of
        Inl e \<Rightarrow> Inl e
      | Inr m \<Rightarrow>
          if rx_ready_time m \<noteq> 0 then Inl AssertFailed
          else if baud m = 0 then Inl BadBaud
          else
            (let symbol_time = c_div ONE_SECOND_NS (baud m)
             in Inr (mux_store unit (m\<lparr>rx_ready_time := to_int64 (now + symbol_time * 10)\<rparr>) s)))"

definition mux_process_events :: "int \<Rightarrow> nat \<Rightarrow> mux_state \<Rightarrow> mux_fault + mux_state" where
  "mux_process_events now unit s =
     (let time = now;
          r = (if rx_ready_time (mux s unit) \<noteq> 0 \<and> rx_ready_time (mux s unit) \<le> time then
                 (if in_fd (mux s unit) = - 1 then Inl AssertFailed
                  else
                    Inr ((mux_store unit
                            ((mux s unit)\<lparr>rx_ready_time := 0,
                               status := status (mux s unit) OR MUX_RX_READY\<rparr>) s)
                          \<lparr>poll_count := 0\<rparr>))
               else Inr s)
      in case r of
           Inl e \<Rightarrow> Inl e
         | Inr s \<Rightarrow>
             if tx_done_time (mux s unit) \<noteq> 0 \<and> tx_done_time (mux s unit) \<le> time then
               (let m = (mux s unit)\<lparr>tx_done_time := 0,
                          status := status (mux s unit) OR MUX_TX_READY\<rparr>;
                    m = (if irq_enabled s \<noteq> 0 then m\<lparr>tx_done := 1\<rparr> else m)
                in Inr (mux_store unit m s))
             else Inr s)"

definition mux_get_in_poll_fd :: "nat \<Rightarrow> mux_state \<Rightarrow> mux_fault + int" where
  "mux_get_in_poll_fd unit s =
     (case mux_unit s (int unit) of
        Inl e \<Rightarrow> Inl e
      | Inr m \<Rightarrow>
          if status m AND MUX_RX_READY \<noteq> 0 \<or> rx_ready_time m \<noteq> 0 then Inr (- 1)
          else Inr (in_fd m))"

definition mux_get_in_fd :: "nat \<Rightarrow> mux_state \<Rightarrow> mux_fault + int" where
  "mux_get_in_fd unit s =
     (case mux_unit s (int unit) of Inl e \<Rightarrow> Inl e | Inr m \<Rightarrow> Inr (in_fd m))"

text \<open>
  Modelled from the spec: \<open>mux_poll_fds\<close> is declared in mux.h and defined outside the
  sources. The spec says it polls the external input sources for newly available bytes;
  mux.h gives it \<open>mux_get_in_poll_fd\<close> to ask which descriptor to poll and
  \<open>mux_set_read_ready\<close> to report a byte. \<open>avail unit\<close> says whether the poll found
  input for the unit.
\<close>

fun mux_poll_fds :: "(nat \<Rightarrow> bool) \<Rightarrow> int \<Rightarrow> nat list \<Rightarrow> mux_state \<Rightarrow> mux_fault + mux_state" where
  "mux_poll_fds avail now [] s = Inr s"
| "mux_poll_fds avail now (unit # units) s =
     (case mux_get_in_poll_fd unit s of
        Inl e \<Rightarrow> Inl e
      | Inr fd \<Rightarrow>
          if fd \<noteq> - 1 \<and> avail unit then
            (case mux_set_read_ready now unit s of
               Inl e \<Rightarrow> Inl e
             | Inr s \<Rightarrow> mux_poll_fds avail now units s)
          else mux_poll_fds avail now units s)"

text \<open>
  \<open>mux_poll\<close>. The first loop is \<open>mux_events\<close>; the arbitration loop is
  \<open>mux_arbitrate\<close>, which returns as soon as \<open>mux_assert_irq\<close> has latched a cause and
  stores the idle value \<open>- 1\<close> when the loop runs to its end. A call of
  \<open>mux_assert_irq\<close> that returns 0 has changed nothing, so the loop goes on with the
  state it had.
\<close>

fun mux_events :: "int \<Rightarrow> nat list \<Rightarrow> mux_state \<Rightarrow> mux_fault + mux_state" where
  "mux_events now [] s = Inr s"
| "mux_events now (unit # units) s =
     (case mux_process_events now unit s of
        Inl e \<Rightarrow> Inl e
      | Inr s \<Rightarrow> mux_events now units s)"

fun mux_arbitrate :: "nat list \<Rightarrow> mux_state \<Rightarrow> mux_state" where
  "mux_arbitrate [] s = s\<lparr>irq_cause := - 1\<rparr>"
| "mux_arbitrate (unit # units) s =
     (if status (mux s unit) AND MUX_RX_READY \<noteq> 0 \<and>
         fst (mux_assert_irq unit MUX_IRQ_RX s) \<noteq> 0
      then snd (mux_assert_irq unit MUX_IRQ_RX s)
      else if tx_done (mux s unit) \<noteq> 0 \<and> fst (mux_assert_irq unit MUX_IRQ_TX s) \<noteq> 0
      then snd (mux_assert_irq unit MUX_IRQ_TX s)
      else mux_arbitrate units s)"

definition mux_poll :: "int \<Rightarrow> (nat \<Rightarrow> bool) \<Rightarrow> mux_state \<Rightarrow> mux_fault + mux_state" where
  "mux_poll now avail s =
     (case mux_events now [0..<NUM_MUX_UNITS] s of
        Inl e \<Rightarrow> Inl e
      | Inr s \<Rightarrow>
          (let count = poll_count s;
               s = s\<lparr>poll_count := count + 1\<rparr>;
               r = (if count AND 0xF = 0 then mux_poll_fds avail now [0..<NUM_MUX_UNITS] s
                    else Inr s)
           in case r of
                Inl e \<Rightarrow> Inl e
              | Inr s \<Rightarrow>
                  Inr (mux_arbitrate [0..<NUM_MUX_UNITS] (cpu_deassert_irq (irq_level s) s))))"

text \<open>
  The interrupt sources in their fixed enumeration RX0, TX0, RX1, TX1, RX2, TX2, RX3,
  TX3: source \<open>2 * unit\<close> is the unit's \<open>RX_READY\<close> status bit, source \<open>2 * unit + 1\<close>
  its \<open>tx_done\<close> flag.
\<close>

definition mux_rx_pending :: "mux_state \<Rightarrow> nat \<Rightarrow> bool" where
  "mux_rx_pending s unit = (status (mux s unit) AND MUX_RX_READY \<noteq> 0)"

definition mux_tx_pending :: "mux_state \<Rightarrow> nat \<Rightarrow> bool" where
  "mux_tx_pending s unit = (tx_done (mux s unit) \<noteq> 0)"

definition mux_source_pending :: "mux_state \<Rightarrow> nat \<Rightarrow> bool" where
  "mux_source_pending s n =
     (if even n then mux_rx_pending s (n div 2) else mux_tx_pending s (n div 2))"

definition mux_lowest_pending :: "mux_state \<Rightarrow> nat \<Rightarrow> bool" where
  "mux_lowest_pending s n =
     (n < 8 \<and> mux_source_pending s n \<and> (\<forall>k<n. \<not> mux_source_pending s k))"

text \<open>The sources of a list of units, in the order the arbitration loop visits them.\<close>

definition mux_sources :: "nat list \<Rightarrow> nat list" where
  "mux_sources us = concat (map (\<lambda>u. [2 * u, 2 * u + 1]) us)"

text \<open>
  What the assertions and the division of a polling tick rely on: no port has baud rate
  0, and a port with an armed RX deadline has an input descriptor.
\<close>

definition mux_baud_ok :: "mux_state \<Rightarrow> bool" where
  "mux_baud_ok s = (\<forall>u<NUM_MUX_UNITS. baud (mux s u) \<noteq> 0)"

definition mux_armed_ok :: "mux_state \<Rightarrow> bool" where
  "mux_armed_ok s =
     (\<forall>u<NUM_MUX_UNITS. rx_ready_time (mux s u) \<noteq> 0 \<longrightarrow> in_fd (mux s u) \<noteq> - 1)"

text \<open>
  A concrete card: after \<open>mux_init\<close>, interrupts enabled, port 2 attached to
  descriptor 5 in raw mode with a received character waiting (\<open>RX_READY\<close>), and a
  finished transmission on port 0 (\<open>tx_done\<close>).
\<close>

definition mux_demo :: mux_state where
  "mux_demo =
     (mux_store 2
        ((mux mux_init 2)\<lparr>in_fd := 5, out_fd := 5, mode := 1,
           status := MUX_TX_READY OR MUX_RX_READY\<rparr>)
       (mux_store 0 ((mux mux_init 0)\<lparr>tx_done := 1\<rparr>) mux_init))
     \<lparr>irq_enabled := 1\<rparr>"

section \<open>Hawk: geometry translation\<close>

text \<open>The three locals of \<open>hawk_position\<close>, read as numbers.\<close>

lemma nat_and_15: "(n::nat) AND 15 = n mod 16"
proof -
  have "n AND 15 = n AND mask 4" by (simp add: mask_eq_exp_minus_1)
  also have "\<dots> = take_bit 4 n" by (simp only: take_bit_eq_mask)
  finally show ?thesis by (simp add: take_bit_eq_mod)
qed

lemma hawk_sec_nat: "hawk_sec s = unat (hawk_secl s) mod 16"
  unfolding hawk_sec_def by (simp add: unsigned_and_eq nat_and_15)

lemma nat_and_16: "((n::nat) AND 16 = 0) = even (n div 16)"
  using and_exp_eq_0_iff_not_bit [of n 4] by (simp add: bit_iff_odd)

lemma hawk_head_nat: "hawk_head s = (unat (hawk_secl s) div 16) mod 2"
proof -
  have "(hawk_secl s AND 0x10 = 0) = (unat (hawk_secl s AND 0x10) = 0)"
    by (simp add: unsigned_eq_0_iff)
  also have "\<dots> = even (unat (hawk_secl s) div 16)"
    by (simp only: unsigned_and_eq) (simp add: nat_and_16)
  finally show ?thesis
    unfolding hawk_head_def by (simp add: mod_2_eq_odd)
qed

lemma nat_or_low3: "y < 8 \<Longrightarrow> x * 8 OR y = x * 8 + (y::nat)"
proof -
  assume "y < 8"
  then have y: "take_bit 3 y = y" by (simp add: take_bit_nat_eq_self)
  have "push_bit 3 x AND take_bit 3 y = 0"
    by (simp add: bit_eq_iff bit_simps)
  then have "push_bit 3 x + y = push_bit 3 x OR y"
    unfolding y by (rule disjunctive_add_eq_or)
  then show ?thesis by (simp add: push_bit_eq_mult)
qed

lemma hawk_cyl_nat: "hawk_cyl s = unat (hawk_sech s) * 8 + unat (hawk_secl s) div 32"
proof -
  let ?a = "push_bit 3 (ucast (hawk_sech s) :: u32)"
  let ?b = "ucast (drop_bit 5 (hawk_secl s)) :: u32"
  have ua: "unat ?a = unat (hawk_sech s) * 8"
  proof -
    have "unat (hawk_sech s) < 2 ^ 8" using unsigned_less [of "hawk_sech s"] by simp
    then have lt: "unat (hawk_sech s) * 8 < 2 ^ 32" by simp
    have "unat ?a = take_bit 32 (push_bit 3 (take_bit 32 (unat (hawk_sech s))))"
      by (simp only: unsigned_push_bit_eq unsigned_ucast_eq) simp
    also have "\<dots> = unat (hawk_sech s) * 8"
      using lt by (simp add: push_bit_eq_mult take_bit_nat_eq_self)
    finally show ?thesis .
  qed
  have l8: "unat (hawk_secl s) < 2 ^ 8" using unsigned_less [of "hawk_secl s"] by simp
  have ub: "unat ?b = unat (hawk_secl s) div 32"
  proof -
    have "unat ?b = take_bit 32 (drop_bit 5 (take_bit 8 (unat (hawk_secl s))))"
      by (simp only: unsigned_ucast_eq unsigned_drop_bit_eq) simp
    also have "\<dots> = unat (hawk_secl s) div 32"
      using l8 by (simp add: drop_bit_eq_div take_bit_nat_eq_self)
    finally show ?thesis .
  qed
  from l8 have b8: "unat ?b < 8" unfolding ub by simp
  have "unat (?a OR ?b) = unat ?a OR unat ?b" by (rule unsigned_or_eq)
  also have "\<dots> = unat (hawk_sech s) * 8 OR unat ?b" by (simp only: ua)
  also have "\<dots> = unat (hawk_sech s) * 8 + unat ?b" using b8 by (rule nat_or_low3)
  finally show ?thesis unfolding hawk_cyl_def by (simp only: ub)
qed

lemma mod32_split: "(b::nat) mod 32 = 16 * (b div 16 mod 2) + b mod 16"
  using mod_mult2_eq [of b 16 2] by simp

lemma nat_layout:
  "a * 256 + (b::nat) = (a * 8 + b div 32) * 32 + (b div 16 mod 2) * 16 + b mod 16"
proof -
  define x y z where "x = b div 32" and "y = b div 16 mod 2" and "z = b mod 16"
  have "b = 32 * (b div 32) + b mod 32" by simp
  then have "b = 32 * x + (16 * y + z)"
    unfolding x_def y_def z_def by (simp only: mod32_split [of b])
  then have "a * 256 + b = (a * 8 + x) * 32 + y * 16 + z" by simp
  then show ?thesis unfolding x_def y_def z_def .
qed

lemma w_cyl: "(w div 256) * 8 + (w mod 256) div 32 = (w::nat) div 32"
proof -
  have "w mod 256 = 32 * (w div 32 mod 8) + w mod 32"
    using mod_mult2_eq [of w 32 8] by simp
  then have "(w mod 256) div 32 = w div 32 mod 8" by simp
  moreover have "w div 256 = w div 32 div 8"
    using div_mult2_eq [of w 32 8] by simp
  ultimately show ?thesis by simp
qed

lemma w_head: "((w mod 256) div 16) mod 2 = ((w::nat) div 16) mod 2"
proof -
  have "w mod 256 = 16 * (w div 16 mod 16) + w mod 16"
    using mod_mult2_eq [of w 16 16] by simp
  then have "(w mod 256) div 16 = w div 16 mod 16" by simp
  moreover have "w div 16 mod 16 mod 2 = w div 16 mod 2"
    by (simp add: mod_mod_cancel)
  ultimately show ?thesis by simp
qed

lemma w_sec: "(w mod 256) mod 16 = (w::nat) mod 16"
  by (simp add: mod_mod_cancel)

lemma hawk_head_le: "hawk_head s \<le> 1"
  by (simp add: hawk_head_def)

lemma hawk_sec_le: "hawk_sec s \<le> 15"
proof -
  have "unat (hawk_secl s) mod 16 < 16" by simp
  then show ?thesis unfolding hawk_sec_nat by linarith
qed

text \<open>
  The decoding is the documented layout: read as one 16-bit number, the register pair is
  the cylinder above the head bit above four sector bits.
\<close>

lemma hawk_registers_layout:
  "unat (hawk_sech s) * 256 + unat (hawk_secl s) =
     hawk_cyl s * 32 + hawk_head s * 16 + hawk_sec s"
  unfolding hawk_cyl_nat hawk_head_nat hawk_sec_nat by (rule nat_layout)

lemma hawk_offset_eq:
  "hawk_offset s = ((int (hawk_cyl s) * 2 + int (hawk_head s)) * 16 + int (hawk_sec s)) * 400"
  by (simp add: hawk_offset_def Let_def)

lemma chs_word_parts:
  assumes "h \<le> 1" "q \<le> 15"
  shows "chs_word c h q div 32 = c" and "chs_word c h q div 16 mod 2 = h"
    and "chs_word c h q mod 16 = q"
proof -
  have "chs_word c h q = (h * 16 + q) + c * 32" by (simp add: chs_word_def)
  moreover have "h * 16 + q < 32" using assms by simp
  ultimately show "chs_word c h q div 32 = c" by simp
  define k where "k = c * 2 + h"
  have "chs_word c h q = q + k * 16" by (simp add: chs_word_def k_def)
  then have d: "chs_word c h q div 16 = k" and m: "chs_word c h q mod 16 = q"
    using assms(2) by simp_all
  show "chs_word c h q div 16 mod 2 = h" unfolding d k_def using assms(1) by simp
  show "chs_word c h q mod 16 = q" by (rule m)
qed

text \<open>Every valid address is the decoding of its register pair.\<close>

lemma chs_state_decode:
  assumes "c \<le> 405" "h \<le> 1" "q \<le> 15"
  shows "hawk_chs (chs_state s c h q) = (c, h, q)"
proof -
  let ?w = "chs_word c h q"
  have w: "?w < 65536" using assms by (simp add: chs_word_def)
  then have hi: "?w div 256 < 256" by simp
  have sech: "unat (hawk_sech (chs_state s c h q)) = ?w div 256"
    using hi by (simp add: chs_state_def unsigned_of_nat take_bit_nat_eq_self)
  have secl: "unat (hawk_secl (chs_state s c h q)) = ?w mod 256"
    by (simp add: chs_state_def unsigned_of_nat take_bit_eq_mod)
  show ?thesis
    unfolding hawk_chs_def hawk_cyl_nat hawk_head_nat hawk_sec_nat sech secl w_cyl w_head w_sec
    using chs_word_parts [OF assms(2,3)] by simp
qed

lemma hawk_offset_chs:
  "hawk_chs s = (c, h, q) \<Longrightarrow> hawk_offset s = 400 * int (chs_word c h q)"
  by (simp add: hawk_offset_eq hawk_chs_def chs_word_def)

lemma chs_word_less:
  assumes "h \<le> 1" "q \<le> 15" "h' \<le> 1" "q' \<le> 15"
  shows "chs_less (c, h, q) (c', h', q') \<longleftrightarrow> chs_word c h q < chs_word c' h' q'"
  unfolding chs_less_def chs_word_def using assms by (simp only: prod.case) linarith

lemma chs_word_inj:
  assumes "h \<le> 1" "q \<le> 15" "h' \<le> 1" "q' \<le> 15"
  shows "chs_word c h q = chs_word c' h' q' \<longleftrightarrow> (c, h, q) = (c', h', q')"
proof
  assume e: "chs_word c h q = chs_word c' h' q'"
  have "c = c'"
    using chs_word_parts(1) [OF assms(1,2), of c] chs_word_parts(1) [OF assms(3,4), of c'] e
    by simp
  moreover have "h = h'"
    using chs_word_parts(2) [OF assms(1,2), of c] chs_word_parts(2) [OF assms(3,4), of c'] e
    by simp
  moreover have "q = q'"
    using chs_word_parts(3) [OF assms(1,2), of c] chs_word_parts(3) [OF assms(3,4), of c'] e
    by simp
  ultimately show "(c, h, q) = (c', h', q')" by simp
next
  assume "(c, h, q) = (c', h', q')"
  then show "chs_word c h q = chs_word c' h' q'" by simp
qed

text \<open>
  Claim C1. For valid addresses (cylinder at most 405, head at most 1, sector at most 15):
  the register pair \<open>chs_state\<close> builds decodes to the address; whenever the two sector
  registers decode to cylinder \<open>c\<close>, head \<open>h\<close>, sector \<open>q\<close>, the offset \<open>hawk_position\<close>
  computes is \<open>((c * 2 + h) * 16 + q) * 400\<close>; one address is lexicographically below
  another exactly when its offset is smaller (strictly monotonic); and equal offsets come
  from equal addresses only (injective).
\<close>

theorem hawk_geometry:
  assumes "c \<le> 405" "h \<le> 1" "q \<le> 15" "c' \<le> 405" "h' \<le> 1" "q' \<le> 15"
    and "hawk_chs s = (c, h, q)" and "hawk_chs s' = (c', h', q')"
  shows "hawk_chs (chs_state t c h q) = (c, h, q) \<and>
         hawk_offset s = ((int c * 2 + int h) * 16 + int q) * 400 \<and>
         (chs_less (c, h, q) (c', h', q') \<longleftrightarrow> hawk_offset s < hawk_offset s') \<and>
         (hawk_offset s = hawk_offset s' \<longleftrightarrow> (c, h, q) = (c', h', q'))"
proof -
  have d: "hawk_chs (chs_state t c h q) = (c, h, q)"
    by (rule chs_state_decode [OF assms(1-3)])
  have o: "hawk_offset s = ((int c * 2 + int h) * 16 + int q) * 400"
    using assms(7) by (simp add: hawk_offset_eq hawk_chs_def)
  have mono: "chs_less (c, h, q) (c', h', q') \<longleftrightarrow> hawk_offset s < hawk_offset s'"
    unfolding hawk_offset_chs [OF assms(7)] hawk_offset_chs [OF assms(8)]
      chs_word_less [OF assms(2,3,5,6)] by simp
  have inj: "hawk_offset s = hawk_offset s' \<longleftrightarrow> (c, h, q) = (c', h', q')"
    unfolding hawk_offset_chs [OF assms(7)] hawk_offset_chs [OF assms(8)]
      chs_word_inj [OF assms(2,3,5,6), symmetric] by simp
  show ?thesis using d o mono inj by blast
qed

theorem hawk_geometry_witness:
  "hawk_chs (chs_state hawk_demo 17 0 3) = (17, 0, 3) \<and>
   hawk_chs (chs_state hawk_demo 405 1 15) = (405, 1, 15) \<and>
   hawk_offset (chs_state hawk_demo 17 0 3) = 218800 \<and>
   hawk_offset (chs_state hawk_demo 17 0 3) < hawk_offset (chs_state hawk_demo 405 1 15)"
proof -
  have a: "hawk_chs (chs_state hawk_demo 17 0 3) = (17, 0, 3)"
    by (simp add: hawk_chs_def hawk_cyl_def hawk_head_def hawk_sec_def chs_state_def
        chs_word_def)
  have b: "hawk_chs (chs_state hawk_demo 405 1 15) = (405, 1, 15)"
    by (simp add: hawk_chs_def hawk_cyl_def hawk_head_def hawk_sec_def chs_state_def
        chs_word_def)
  have "chs_less (17, 0, 3) (405, 1, 15)" by (simp add: chs_less_def)
  with hawk_geometry [of 17 0 3 405 1 15, OF _ _ _ _ _ _ a b] a b
  show ?thesis by simp
qed

section \<open>Hawk: status word\<close>

text \<open>The flags stay 0 or 1 under every operation of the controller.\<close>

lemma hawk_flags_ok_init: "hawk_flags_ok (hawk_init opened)"
  by (simp add: hawk_flags_ok_def hawk_init_def)

lemma hawk_flags_ok_position: "hawk_flags_ok s \<Longrightarrow> hawk_flags_ok (hawk_position lseek s)"
  by (simp add: hawk_flags_ok_def hawk_position_def Let_def)

lemma hawk_flags_ok_busy:
  "hawk_flags_ok s \<Longrightarrow> b \<in> {0, 1} \<Longrightarrow> hawk_flags_ok (s\<lparr>hawk_busy := b\<rparr>)"
  by (simp add: hawk_flags_ok_def)

lemma hawk_flags_ok_set_dma: "hawk_flags_ok (hawk_set_dma m s) = hawk_flags_ok s"
  by (simp add: hawk_flags_ok_def hawk_set_dma_def)

lemma hawk_flags_ok_cmd_clear: "hawk_flags_ok s \<Longrightarrow> hawk_flags_ok (hawk_cmd_clear s)"
  by (simp add: hawk_flags_ok_def hawk_cmd_clear_def Let_def)

lemma hawk_flags_ok_cmd_switch:
  "hawk_flags_ok s \<Longrightarrow> hawk_flags_ok (hawk_cmd_switch lseek cmd s)"
  unfolding hawk_cmd_switch_def
  by (simp add: hawk_flags_ok_set_dma hawk_flags_ok_busy hawk_flags_ok_position)

lemma hawk_flags_ok_cmd: "hawk_flags_ok s \<Longrightarrow> hawk_flags_ok (hawk_cmd lseek cmd s)"
  unfolding hawk_cmd_def by (intro hawk_flags_ok_cmd_switch hawk_flags_ok_cmd_clear)

lemma hawk_flags_ok_write:
  assumes "hawk_flags_ok s"
  shows "hawk_flags_ok (hawk_write lseek addr val s)"
proof -
  have a: "hawk_flags_ok (s\<lparr>hawk_unit := val, hawk_ready := r\<rparr>)" if "r \<in> {0, 1}" for r
    using assms that by (simp add: hawk_flags_ok_def)
  have b: "hawk_flags_ok (s\<lparr>hawk_sech := val\<rparr>)" "hawk_flags_ok (s\<lparr>hawk_secl := val\<rparr>)"
    "hawk_flags_ok (s\<lparr>hawk_data_error := 0\<rparr>)"
    using assms by (simp_all add: hawk_flags_ok_def)
  show ?thesis
    unfolding hawk_write_def Let_def
    by (simp add: a b hawk_flags_ok_cmd [OF assms] assms)
qed

lemma hawk_flags_ok_dma_done: "hawk_flags_ok s \<Longrightarrow> hawk_flags_ok (hawk_dma_done s)"
  by (simp add: hawk_flags_ok_def hawk_dma_done_def hawk_set_dma_def Let_def)

lemma hawk_flags_ok_read_next:
  "hawk_flags_ok s \<Longrightarrow> hawk_flags_ok (snd (hawk_read_next rd c0 s))"
  by (simp add: hawk_flags_ok_def hawk_read_next_def Let_def split: option.splits)

lemma hawk_flags_ok_write_next:
  "hawk_flags_ok s \<Longrightarrow> hawk_flags_ok (hawk_write_next wr c s)"
  by (simp add: hawk_flags_ok_def hawk_write_next_def Let_def)

lemma flag_bit:
  "f \<in> {0, 1} \<Longrightarrow> k < 32 \<Longrightarrow>
     bit (push_bit k (ucast (f::u8) :: u32)) n \<longleftrightarrow> (n = k \<and> f = 1)"
  by (auto simp add: bit_simps)

lemma hawk_status_bits:
  assumes "hawk_flags_ok s"
  shows "bit (hawk_get_status s) n \<longleftrightarrow>
           (n = 4 \<and> hawk_ready s = 1) \<or> (n = 5 \<and> hawk_on_track s = 1) \<or>
           (n = 8 \<and> hawk_busy s = 1) \<or>
           (n \<in> {10, 11, 12, 13, 15} \<and> hawk_data_error s = 1) \<or>
           (n = 14 \<and> hawk_seek_error s = 1)"
proof -
  have f: "hawk_ready s \<in> {0, 1}" "hawk_on_track s \<in> {0, 1}" "hawk_busy s \<in> {0, 1}"
    "hawk_data_error s \<in> {0, 1}" "hawk_seek_error s \<in> {0, 1}"
    using assms by (simp_all add: hawk_flags_ok_def)
  show ?thesis
    unfolding hawk_get_status_def
    by (simp only: bit_ucast_iff bit_or_iff flag_bit [OF f(1)] flag_bit [OF f(2)]
        flag_bit [OF f(3)] flag_bit [OF f(4)] flag_bit [OF f(5)]) auto
qed

lemma hawk_read_high: "hawk_read 0xF144 s = ucast (drop_bit 8 (hawk_get_status s))"
proof -
  have "hawk_read 0xF144 s = ucast (drop_bit 8 (ucast (hawk_get_status s) :: u32))"
    by (simp add: hawk_read_def)
  also have "\<dots> = ucast (drop_bit 8 (hawk_get_status s))"
    by (rule bit_word_eqI) (auto simp add: bit_simps)
  finally show ?thesis .
qed

lemma hawk_read_low: "hawk_read 0xF145 s = ucast (hawk_get_status s)"
proof -
  have m: "(0xff :: u32) = mask 8" by (simp add: mask_eq_exp_minus_1)
  have "hawk_read 0xF145 s = ucast ((ucast (hawk_get_status s) :: u32) AND 0xff)"
    by (simp add: hawk_read_def)
  also have "\<dots> = ucast (hawk_get_status s)"
    unfolding m by (rule bit_word_eqI) (auto simp add: bit_simps)
  finally show ?thesis .
qed

lemma hawk_read_cat:
  "word_cat (hawk_read 0xF144 s) (hawk_read 0xF145 s) = hawk_get_status s"
  unfolding hawk_read_high hawk_read_low
  by (rule bit_word_eqI) (auto simp add: bit_simps)

text \<open>
  Claim C2. In every controller state whose flags are 0 or 1 (all the code ever stores),
  the status word has bit 4 = ready, bit 5 = on_track, bit 8 = busy, bits 10, 11, 12, 13
  and 15 = data_error, bit 14 = seek_error and no other bit set; the read of 0xF144 is
  its high byte and the read of 0xF145 its low byte.
\<close>

theorem hawk_status_word:
  assumes "hawk_flags_ok s"
  shows "(\<forall>n. bit (hawk_get_status s) n \<longleftrightarrow>
           (n = 4 \<and> hawk_ready s = 1) \<or> (n = 5 \<and> hawk_on_track s = 1) \<or>
           (n = 8 \<and> hawk_busy s = 1) \<or>
           (n \<in> {10, 11, 12, 13, 15} \<and> hawk_data_error s = 1) \<or>
           (n = 14 \<and> hawk_seek_error s = 1)) \<and>
         hawk_read 0xF144 s = ucast (drop_bit 8 (hawk_get_status s)) \<and>
         hawk_read 0xF145 s = ucast (hawk_get_status s) \<and>
         word_cat (hawk_read 0xF144 s) (hawk_read 0xF145 s) = hawk_get_status s"
proof (intro conjI allI)
  fix n
  show "bit (hawk_get_status s) n \<longleftrightarrow>
           (n = 4 \<and> hawk_ready s = 1) \<or> (n = 5 \<and> hawk_on_track s = 1) \<or>
           (n = 8 \<and> hawk_busy s = 1) \<or>
           (n \<in> {10, 11, 12, 13, 15} \<and> hawk_data_error s = 1) \<or>
           (n = 14 \<and> hawk_seek_error s = 1)"
    by (rule hawk_status_bits [OF assms])
qed (rule hawk_read_high hawk_read_low hawk_read_cat)+

theorem hawk_status_word_witness:
  "hawk_flags_ok (hawk_demo\<lparr>hawk_ready := 1, hawk_data_error := 1\<rparr>) \<and>
   bit (hawk_get_status (hawk_demo\<lparr>hawk_ready := 1, hawk_data_error := 1\<rparr>)) 4 \<and>
   bit (hawk_get_status (hawk_demo\<lparr>hawk_ready := 1, hawk_data_error := 1\<rparr>)) 15 \<and>
   \<not> bit (hawk_get_status (hawk_demo\<lparr>hawk_ready := 1, hawk_data_error := 1\<rparr>)) 14 \<and>
   hawk_get_status (hawk_demo\<lparr>hawk_ready := 1, hawk_data_error := 1\<rparr>) = 0xBC10 \<and>
   hawk_read 0xF144 (hawk_demo\<lparr>hawk_ready := 1, hawk_data_error := 1\<rparr>) = 0xBC \<and>
   hawk_read 0xF145 (hawk_demo\<lparr>hawk_ready := 1, hawk_data_error := 1\<rparr>) = 0x10"
proof -
  let ?s = "hawk_demo\<lparr>hawk_ready := 1, hawk_data_error := 1\<rparr>"
  have ok: "hawk_flags_ok ?s"
    by (simp add: hawk_flags_ok_def hawk_demo_def hawk_init_def)
  have v: "hawk_get_status ?s = 0xBC10"
    by (simp add: hawk_get_status_def hawk_demo_def hawk_init_def)
  have f: "hawk_seek_error ?s = 0" "hawk_ready ?s = 1" "hawk_data_error ?s = 1"
    by (simp_all add: hawk_demo_def hawk_init_def)
  from hawk_status_word [OF ok] have
    b: "\<And>n. bit (hawk_get_status ?s) n \<longleftrightarrow>
           (n = 4 \<and> hawk_ready ?s = 1) \<or> (n = 5 \<and> hawk_on_track ?s = 1) \<or>
           (n = 8 \<and> hawk_busy ?s = 1) \<or>
           (n \<in> {10, 11, 12, 13, 15} \<and> hawk_data_error ?s = 1) \<or>
           (n = 14 \<and> hawk_seek_error ?s = 1)"
    and hi: "hawk_read 0xF144 ?s = ucast (drop_bit 8 (hawk_get_status ?s))"
    and lo: "hawk_read 0xF145 ?s = ucast (hawk_get_status ?s)"
    by blast+
  have b4: "bit (hawk_get_status ?s) 4" unfolding b using f by simp
  have b15: "bit (hawk_get_status ?s) 15" unfolding b using f by simp
  have b14: "\<not> bit (hawk_get_status ?s) 14" unfolding b using f by simp
  have h: "hawk_read 0xF144 ?s = 0xBC" unfolding hi v by simp
  have l: "hawk_read 0xF145 ?s = 0x10" unfolding lo v by simp
  show ?thesis using ok b4 b15 b14 v h l by blast
qed

section \<open>Hawk: DMA completion and command dispatch\<close>

text \<open>
  Claim C3. In every controller state, after \<open>hawk_dma_done\<close> busy is 0, and data_error
  is 1 exactly when on_track was 0 at the call (and 0 otherwise).
\<close>

theorem hawk_dma_done_flags:
  "hawk_busy (hawk_dma_done s) = 0 \<and>
   (hawk_data_error (hawk_dma_done s) = 1 \<longleftrightarrow> hawk_on_track s = 0) \<and>
   (hawk_data_error (hawk_dma_done s) = 0 \<longleftrightarrow> hawk_on_track s \<noteq> 0)"
  by (simp add: hawk_dma_done_def hawk_set_dma_def Let_def)

theorem hawk_dma_done_flags_witness:
  "hawk_busy (hawk_dma_done hawk_reading) = 0 \<and>
   hawk_data_error (hawk_dma_done hawk_reading) = 1 \<and>
   hawk_data_error (hawk_dma_done (hawk_reading\<lparr>hawk_on_track := 1\<rparr>)) = 0"
  using hawk_dma_done_flags [of hawk_reading]
    hawk_dma_done_flags [of "hawk_reading\<lparr>hawk_on_track := 1\<rparr>"]
  by (simp add: hawk_reading_def hawk_demo_def hawk_init_def hawk_write_def hawk_cmd_def
      hawk_cmd_switch_def hawk_cmd_clear_def hawk_set_dma_def Let_def)

lemma hawk_position_errors:
  "hawk_data_error (hawk_position lseek s) = hawk_data_error s \<and>
   hawk_seek_error (hawk_position lseek s) =
     (if hawk_get_fd s = - 1 \<or> lseek (hawk_get_fd s) (hawk_offset s) = - 1 then 1
      else hawk_seek_error s)"
  by (simp add: hawk_position_def Let_def)

lemma hawk_get_fd_flags:
  "hawk_get_fd (s\<lparr>hawk_busy := b\<rparr>) = hawk_get_fd s"
  "hawk_get_fd (s\<lparr>hawk_data_error := b\<rparr>) = hawk_get_fd s"
  "hawk_get_fd (s\<lparr>hawk_seek_error := b\<rparr>) = hawk_get_fd s"
  "hawk_get_fd (s\<lparr>hawk_on_track := b\<rparr>) = hawk_get_fd s"
  by (simp_all add: hawk_get_fd_def)

lemma hawk_offset_flags:
  "hawk_offset (s\<lparr>hawk_busy := b\<rparr>) = hawk_offset s"
  "hawk_offset (s\<lparr>hawk_data_error := b\<rparr>) = hawk_offset s"
  "hawk_offset (s\<lparr>hawk_seek_error := b\<rparr>) = hawk_offset s"
  "hawk_offset (s\<lparr>hawk_on_track := b\<rparr>) = hawk_offset s"
  by (simp_all add: hawk_offset_def hawk_cyl_def hawk_head_def hawk_sec_def)

text \<open>
  Claim C4. A write of any byte \<open>cmd\<close> to the command register 0xF148 runs the command's
  \<open>switch\<close> on the state in which data_error and seek_error are already 0 (and nothing
  else has changed); hence the result does not depend on the flags' earlier values,
  data_error is 0 afterwards, and seek_error is 1 afterwards only when a Seek or Restore
  failed to position.
\<close>

theorem hawk_cmd_clears_errors:
  "hawk_write lseek 0xF148 cmd s = hawk_cmd_switch lseek cmd (hawk_cmd_clear s) \<and>
   hawk_cmd_clear s = s\<lparr>hawk_data_error := 0, hawk_seek_error := 0\<rparr> \<and>
   hawk_data_error (hawk_cmd_clear s) = 0 \<and> hawk_seek_error (hawk_cmd_clear s) = 0 \<and>
   hawk_write lseek 0xF148 cmd (s\<lparr>hawk_data_error := d, hawk_seek_error := e\<rparr>) =
     hawk_write lseek 0xF148 cmd s \<and>
   hawk_data_error (hawk_write lseek 0xF148 cmd s) = 0 \<and>
   hawk_seek_error (hawk_write lseek 0xF148 cmd s) =
     (if (cmd = 2 \<or> cmd = 3) \<and>
         (hawk_get_fd s = - 1 \<or> lseek (hawk_get_fd s) (hawk_offset s) = - 1)
      then 1 else 0)"
proof -
  have w: "\<And>t. hawk_write lseek 0xF148 cmd t = hawk_cmd_switch lseek cmd (hawk_cmd_clear t)"
    by (simp add: hawk_write_def hawk_cmd_def)
  have c: "\<And>t. hawk_cmd_clear t = t\<lparr>hawk_data_error := 0, hawk_seek_error := 0\<rparr>"
    by (simp add: hawk_cmd_clear_def Let_def)
  have i: "hawk_cmd_clear (s\<lparr>hawk_data_error := d, hawk_seek_error := e\<rparr>) = hawk_cmd_clear s"
    by (simp add: c)
  have d: "hawk_data_error (hawk_cmd_switch lseek cmd (hawk_cmd_clear s)) = 0"
    by (simp add: c hawk_cmd_switch_def hawk_set_dma_def hawk_position_errors
        hawk_get_fd_flags hawk_offset_flags)
  have e: "hawk_seek_error (hawk_cmd_switch lseek cmd (hawk_cmd_clear s)) =
     (if (cmd = 2 \<or> cmd = 3) \<and>
         (hawk_get_fd s = - 1 \<or> lseek (hawk_get_fd s) (hawk_offset s) = - 1)
      then 1 else 0)"
    by (simp add: c hawk_cmd_switch_def hawk_set_dma_def hawk_position_errors
        hawk_get_fd_flags hawk_offset_flags)
  show ?thesis
    unfolding w i using c d e by simp
qed

theorem hawk_cmd_clears_errors_witness:
  "hawk_data_error (hawk_write (\<lambda>fd off. off) 0xF148 0x55
      (hawk_demo\<lparr>hawk_data_error := 1, hawk_seek_error := 1\<rparr>)) = 0 \<and>
   hawk_seek_error (hawk_write (\<lambda>fd off. off) 0xF148 0x55
      (hawk_demo\<lparr>hawk_data_error := 1, hawk_seek_error := 1\<rparr>)) = 0 \<and>
   hawk_write (\<lambda>fd off. off) 0xF148 0x55
      (hawk_demo\<lparr>hawk_data_error := 1, hawk_seek_error := 1\<rparr>) =
     hawk_write (\<lambda>fd off. off) 0xF148 0x55 hawk_demo"
proof -
  let ?s = "hawk_demo\<lparr>hawk_data_error := 1, hawk_seek_error := 1\<rparr>"
  note u = hawk_cmd_clears_errors [of "\<lambda>fd off. off" "0x55" ?s 0 0]
  note v = hawk_cmd_clears_errors [of "\<lambda>fd off. off" "0x55" hawk_demo 1 1]
  have a: "hawk_data_error (hawk_write (\<lambda>fd off. off) 0xF148 0x55 ?s) = 0"
    by (rule u [THEN conjunct2, THEN conjunct2, THEN conjunct2, THEN conjunct2,
          THEN conjunct2, THEN conjunct1])
  have "hawk_seek_error (hawk_write (\<lambda>fd off. off) 0xF148 0x55 ?s) =
     (if ((0x55 :: u8) = 2 \<or> (0x55 :: u8) = 3) \<and>
         (hawk_get_fd ?s = - 1 \<or> (\<lambda>fd off. off) (hawk_get_fd ?s) (hawk_offset ?s) = - 1)
      then 1 else 0)"
    by (rule u [THEN conjunct2, THEN conjunct2, THEN conjunct2, THEN conjunct2,
          THEN conjunct2, THEN conjunct2])
  moreover have "((0x55 :: u8) = 2 \<or> (0x55 :: u8) = 3) = False" by simp
  ultimately have b: "hawk_seek_error (hawk_write (\<lambda>fd off. off) 0xF148 0x55 ?s) = 0"
    by (simp only: simp_thms if_False)
  have c: "hawk_write (\<lambda>fd off. off) 0xF148 0x55 ?s =
     hawk_write (\<lambda>fd off. off) 0xF148 0x55 hawk_demo"
    by (rule v [THEN conjunct2, THEN conjunct2, THEN conjunct2, THEN conjunct2,
          THEN conjunct1])
  show ?thesis using a b c by (intro conjI)
qed

lemma hawk_position_busy: "hawk_busy (hawk_position lseek s) = hawk_busy s"
  by (simp add: hawk_position_def Let_def)

lemma hawk_position_set_busy:
  "hawk_position lseek (s\<lparr>hawk_busy := b\<rparr>) = (hawk_position lseek s)\<lparr>hawk_busy := b\<rparr>"
  by (simp add: hawk_position_def Let_def hawk_get_fd_flags hawk_offset_flags)

text \<open>
  Seek and Restore run the same positioning; they differ in one assignment. Seek clears
  busy before it, Restore leaves busy as it was.
\<close>

lemma hawk_restore_keeps_busy:
  "hawk_busy (hawk_cmd lseek 3 s) = hawk_busy s \<and> hawk_busy (hawk_cmd lseek 2 s) = 0 \<and>
   hawk_cmd lseek 2 s = (hawk_cmd lseek 3 s)\<lparr>hawk_busy := 0\<rparr>"
  by (simp add: hawk_cmd_def hawk_cmd_switch_def hawk_cmd_clear_def Let_def
      hawk_position_busy hawk_position_set_busy)

text \<open>
  Claim C5 (Restore has the same effect as Seek) does not hold of the code. With a Read
  command pending (busy = 1), Restore leaves busy at 1 and Seek clears it, so the two
  resulting states differ.
\<close>

theorem hawk_restore_differs_from_seek:
  "hawk_busy hawk_reading = 1 \<and>
   hawk_busy (hawk_write (\<lambda>fd off. off) 0xF148 3 hawk_reading) = 1 \<and>
   hawk_busy (hawk_write (\<lambda>fd off. off) 0xF148 2 hawk_reading) = 0 \<and>
   hawk_write (\<lambda>fd off. off) 0xF148 3 hawk_reading \<noteq>
     hawk_write (\<lambda>fd off. off) 0xF148 2 hawk_reading"
proof -
  have r: "hawk_busy hawk_reading = 1"
    by (simp add: hawk_reading_def hawk_demo_def hawk_init_def hawk_write_def hawk_cmd_def
        hawk_cmd_switch_def hawk_cmd_clear_def hawk_set_dma_def Let_def)
  have b3: "hawk_busy (hawk_write (\<lambda>fd off. off) 0xF148 3 hawk_reading) = 1"
    using hawk_restore_keeps_busy [of "\<lambda>fd off. off" hawk_reading] r
    by (simp add: hawk_write_def)
  have b2: "hawk_busy (hawk_write (\<lambda>fd off. off) 0xF148 2 hawk_reading) = 0"
    using hawk_restore_keeps_busy [of "\<lambda>fd off. off" hawk_reading]
    by (simp add: hawk_write_def)
  have "hawk_write (\<lambda>fd off. off) 0xF148 3 hawk_reading \<noteq>
     hawk_write (\<lambda>fd off. off) 0xF148 2 hawk_reading"
    using b2 b3 by auto
  then show ?thesis using r b2 b3 by simp
qed

section \<open>Hawk: byte transfer\<close>

text \<open>
  A successful byte-read step returns the byte \<open>read\<close> stored and leaves the controller
  as it was: the controller keeps no copy of the byte read last.
\<close>

lemma hawk_read_next_success:
  "hawk_get_fd s \<noteq> - 1 \<Longrightarrow> rd (hawk_get_fd s) = Some b \<Longrightarrow> hawk_read_next rd c0 s = (b, s)"
  by (simp add: hawk_read_next_def Let_def)

text \<open>
  Claim C8 (a failing byte-read step sets data_error and returns the previous last-read
  value). The first half holds: when the step fails (no backing store for the selected
  unit, or the one-byte read did not return 1), data_error is 1 afterwards and nothing
  else in the controller has changed. The second half is not what the code does:
  \<open>hawk_read_next\<close> returns its local \<open>c\<close>, which is declared without a value and which
  neither failing path assigns.
\<close>

theorem hawk_read_next_failure:
  assumes "hawk_get_fd s = - 1 \<or> rd (hawk_get_fd s) = None"
  shows "hawk_data_error (snd (hawk_read_next rd c0 s)) = 1 \<and>
         snd (hawk_read_next rd c0 s) = s\<lparr>hawk_data_error := 1\<rparr>"
  using assms by (auto simp add: hawk_read_next_def Let_def)

theorem hawk_read_next_failure_witness:
  "hawk_get_fd (hawk_write (\<lambda>fd off. off) 0xF140 1 hawk_demo) = - 1 \<and>
   hawk_data_error (hawk_write (\<lambda>fd off. off) 0xF140 1 hawk_demo) = 0 \<and>
   hawk_data_error
     (snd (hawk_read_next (\<lambda>fd. Some 0x41) 7
        (hawk_write (\<lambda>fd off. off) 0xF140 1 hawk_demo))) = 1"
proof -
  let ?t = "hawk_write (\<lambda>fd off. off) 0xF140 1 hawk_demo"
  have t: "?t = hawk_demo\<lparr>hawk_unit := 1, hawk_ready := 0\<rparr>"
    by (simp add: hawk_write_def hawk_get_fd_def hawk_demo_def hawk_init_def
        NUM_HAWK_UNITS_def Let_def)
  have h: "hawk_get_fd ?t = - 1"
    unfolding t by (simp add: hawk_get_fd_def hawk_demo_def hawk_init_def NUM_HAWK_UNITS_def)
  have e: "hawk_data_error ?t = 0"
    unfolding t by (simp add: hawk_demo_def hawk_init_def)
  from h have "hawk_get_fd ?t = - 1 \<or> (\<lambda>fd. Some (0x41 :: u8)) (hawk_get_fd ?t) = None"
    by simp
  from hawk_read_next_failure [OF this, of 7] have
    "hawk_data_error (snd (hawk_read_next (\<lambda>fd. Some 0x41) 7 ?t)) = 1"
    by (rule conjunct1)
  with h e show ?thesis by (intro conjI)
qed

section \<open>MUX: interrupt arbitration\<close>

lemma upt4: "[0..<NUM_MUX_UNITS] = [0, 1, 2, 3]"
  by (simp add: NUM_MUX_UNITS_def upt_rec)

lemma mux_assert_irq_zero: "fst (mux_assert_irq unit reason s) = 0 \<Longrightarrow> snd (mux_assert_irq unit reason s) = s"
  by (simp add: mux_assert_irq_def split: if_splits)

lemma cause_rx: "int (push_bit 1 u OR MUX_IRQ_RX) = int (2 * u)"
  by (simp add: MUX_IRQ_RX_def push_bit_eq_mult)

lemma cause_tx: "int (push_bit 1 u OR MUX_IRQ_TX) = int (2 * u + 1)"
  by (simp add: MUX_IRQ_TX_def push_bit_eq_mult or_Suc_0_eq)

lemma source_rx: "mux_source_pending s (2 * u) = mux_rx_pending s u"
  by (simp add: mux_source_pending_def)

lemma source_tx: "mux_source_pending s (2 * u + 1) = mux_tx_pending s u"
  by (simp add: mux_source_pending_def)

lemma mux_arbitrate_units:
  "mux (mux_arbitrate us s) = mux s \<and> irq_enabled (mux_arbitrate us s) = irq_enabled s"
  by (induction us) (simp_all add: mux_assert_irq_def cpu_assert_irq_def)

lemma mux_assert_irq_cause:
  "irq_enabled s \<noteq> 0 \<Longrightarrow>
     fst (mux_assert_irq u r s) = 1 \<and>
     irq_cause (snd (mux_assert_irq u r s)) = int (push_bit 1 u OR r)"
  by (simp add: mux_assert_irq_def cpu_assert_irq_def)

lemma mux_arbitrate_cause:
  "irq_cause (mux_arbitrate us s) =
     (if irq_enabled s = 0 then - 1
      else case find (mux_source_pending s) (mux_sources us) of
             None \<Rightarrow> - 1 | Some n \<Rightarrow> int n)"
proof (induction us)
  case Nil
  show ?case by (simp add: mux_sources_def)
next
  case (Cons u us)
  have src: "mux_sources (u # us) = 2 * u # (2 * u + 1) # mux_sources us"
    by (simp add: mux_sources_def)
  show ?case
  proof (cases "irq_enabled s = 0")
    case True
    then have "mux_arbitrate (u # us) s = mux_arbitrate us s"
      by (simp add: mux_assert_irq_def)
    with Cons True show ?thesis by simp
  next
    case False
    note en = mux_assert_irq_cause [OF False]
    consider (rx) "mux_rx_pending s u"
      | (tx) "\<not> mux_rx_pending s u" "mux_tx_pending s u"
      | (none) "\<not> mux_rx_pending s u" "\<not> mux_tx_pending s u"
      by blast
    then show ?thesis
    proof cases
      case rx
      then have "mux_arbitrate (u # us) s = snd (mux_assert_irq u MUX_IRQ_RX s)"
        using en [of u MUX_IRQ_RX] by (simp add: mux_rx_pending_def)
      then have "irq_cause (mux_arbitrate (u # us) s) = int (2 * u)"
        using en [of u MUX_IRQ_RX] by (simp only: cause_rx)
      moreover have "find (mux_source_pending s) (mux_sources (u # us)) = Some (2 * u)"
        unfolding src using rx by (simp only: find.simps source_rx if_True)
      ultimately show ?thesis using False by simp
    next
      case tx
      then have "mux_arbitrate (u # us) s = snd (mux_assert_irq u MUX_IRQ_TX s)"
        using en [of u MUX_IRQ_TX] by (simp add: mux_rx_pending_def mux_tx_pending_def)
      then have "irq_cause (mux_arbitrate (u # us) s) = int (2 * u + 1)"
        using en [of u MUX_IRQ_TX] by (simp only: cause_tx)
      moreover have "find (mux_source_pending s) (mux_sources (u # us)) = Some (2 * u + 1)"
        unfolding src using tx
        by (simp only: find.simps source_rx source_tx if_True if_False)
      ultimately show ?thesis using False by simp
    next
      case none
      then have "mux_arbitrate (u # us) s = mux_arbitrate us s"
        by (simp add: mux_rx_pending_def mux_tx_pending_def)
      moreover have "find (mux_source_pending s) (mux_sources (u # us)) =
          find (mux_source_pending s) (mux_sources us)"
        unfolding src using none
        by (simp only: find.simps source_rx source_tx if_False)
      ultimately show ?thesis using Cons by simp
    qed
  qed
qed

lemma upt8: "[0..<8] = [0, 1, 2, 3, 4, 5, 6, 7::nat]"
  by (simp add: upt_rec)

lemma sources4: "mux_sources [0..<NUM_MUX_UNITS] = [0..<8]"
  unfolding upt4 upt8 by (simp add: mux_sources_def)

lemma find_upt_Some:
  "find P [0..<m] = Some n \<longleftrightarrow> n < m \<and> P n \<and> (\<forall>k<n. \<not> P k)"
proof
  assume "find P [0..<m] = Some n"
  then obtain i where i: "i < length [0..<m]" "P ([0..<m] ! i)" "n = [0..<m] ! i"
    "\<forall>j<i. \<not> P ([0..<m] ! j)"
    unfolding find_Some_iff by blast
  from i(1) have im: "i < m" by simp
  with i(3) have ni: "n = i" by simp
  have "\<forall>k<n. \<not> P k"
  proof (intro allI impI)
    fix k assume k: "k < n"
    then have "k < m" using im ni by simp
    then have "[0..<m] ! k = k" by simp
    with i(4) k ni show "\<not> P k" by metis
  qed
  moreover have "P n" using i(2) im ni by simp
  ultimately show "n < m \<and> P n \<and> (\<forall>k<n. \<not> P k)" using im ni by simp
next
  assume a: "n < m \<and> P n \<and> (\<forall>k<n. \<not> P k)"
  then have "n < length [0..<m]" "P ([0..<m] ! n)" "n = [0..<m] ! n" by simp_all
  moreover have "\<forall>j<n. \<not> P ([0..<m] ! j)" using a by simp
  ultimately show "find P [0..<m] = Some n" unfolding find_Some_iff by blast
qed

lemma find_upt_None: "find P [0..<m] = None \<longleftrightarrow> (\<forall>n<m. \<not> P n)"
  unfolding find_None_iff by simp

lemma mux_arbitrate_lowest:
  "irq_enabled s \<noteq> 0 \<Longrightarrow> mux_lowest_pending s n \<Longrightarrow>
     irq_cause (mux_arbitrate [0..<NUM_MUX_UNITS] s) = int n"
  unfolding mux_arbitrate_cause sources4 mux_lowest_pending_def
  using find_upt_Some [of "mux_source_pending s" 8 n] by simp

lemma mux_arbitrate_idle:
  "irq_enabled s = 0 \<or> (\<forall>n<8. \<not> mux_source_pending s n) \<Longrightarrow>
     irq_cause (mux_arbitrate [0..<NUM_MUX_UNITS] s) = - 1"
  unfolding mux_arbitrate_cause sources4
  using find_upt_None [of "mux_source_pending s" 8] by auto

lemma mux_arbitrate_cases:
  "irq_cause (mux_arbitrate [0..<NUM_MUX_UNITS] s) = - 1 \<or>
   (\<exists>n. mux_lowest_pending s n \<and> irq_cause (mux_arbitrate [0..<NUM_MUX_UNITS] s) = int n)"
proof (cases "find (mux_source_pending s) [0..<8]")
  case None
  then show ?thesis unfolding mux_arbitrate_cause sources4 by simp
next
  case (Some n)
  then have "mux_lowest_pending s n"
    unfolding mux_lowest_pending_def find_upt_Some .
  with Some show ?thesis unfolding mux_arbitrate_cause sources4 by auto
qed

lemma mux_arbitrate_pending:
  "mux_source_pending (mux_arbitrate us s) = mux_source_pending s"
  by (rule ext)
    (simp add: mux_source_pending_def mux_rx_pending_def mux_tx_pending_def mux_arbitrate_units)

lemma mux_poll_result:
  assumes "mux_poll now avail s = Inr s'"
  shows "\<exists>t. s' = mux_arbitrate [0..<NUM_MUX_UNITS] t"
  using assms unfolding mux_poll_def Let_def
  by (auto split: sum.splits if_splits)


text \<open>A polling tick returns from every state that meets these two conditions.\<close>

lemma mux_process_events_ok:
  assumes "mux_armed_ok s" "u < NUM_MUX_UNITS"
  shows "\<exists>t. mux_process_events now u s = Inr t \<and> mux_armed_ok t \<and>
           (\<forall>w. baud (mux t w) = baud (mux s w))"
proof -
  have a: "rx_ready_time (mux s u) \<noteq> 0 \<Longrightarrow> in_fd (mux s u) \<noteq> - 1"
    using assms by (simp add: mux_armed_ok_def)
  show ?thesis
    using assms(1) a
    by (auto simp add: mux_process_events_def mux_armed_ok_def mux_store_def Let_def)
qed

lemma mux_events_ok:
  "mux_armed_ok s \<Longrightarrow> \<forall>u\<in>set us. u < NUM_MUX_UNITS \<Longrightarrow>
     \<exists>t. mux_events now us s = Inr t \<and> mux_armed_ok t \<and>
       (\<forall>w. baud (mux t w) = baud (mux s w))"
proof (induction us arbitrary: s)
  case Nil
  then show ?case by simp
next
  case (Cons u us)
  from Cons.prems have u: "u < NUM_MUX_UNITS" by simp
  from mux_process_events_ok [OF Cons.prems(1) u, of now] obtain t where
    t: "mux_process_events now u s = Inr t" "mux_armed_ok t"
    "\<forall>w. baud (mux t w) = baud (mux s w)"
    by blast
  from Cons.IH [OF t(2)] Cons.prems(2) obtain t' where
    "mux_events now us t = Inr t'" "mux_armed_ok t'" "\<forall>w. baud (mux t' w) = baud (mux t w)"
    by auto
  with t show ?case by simp
qed

lemma mux_poll_fds_ok:
  "mux_baud_ok s \<Longrightarrow> \<forall>u\<in>set us. u < NUM_MUX_UNITS \<Longrightarrow>
     \<exists>t. mux_poll_fds avail now us s = Inr t"
proof (induction us arbitrary: s)
  case Nil
  then show ?case by simp
next
  case (Cons u us)
  from Cons.prems have u: "u < NUM_MUX_UNITS" by simp
  have m: "mux_unit s (int u) = Inr (mux s u)" using u by (simp add: mux_unit_def)
  have b: "baud (mux s u) \<noteq> 0" using Cons.prems(1) u by (simp add: mux_baud_ok_def)
  show ?case
  proof (cases "rx_ready_time (mux s u) = 0 \<and> status (mux s u) AND MUX_RX_READY = 0 \<and>
      in_fd (mux s u) \<noteq> - 1 \<and> avail u")
    case True
    define t where "t = mux_store u ((mux s u)\<lparr>rx_ready_time :=
        to_int64 (now + c_div ONE_SECOND_NS (baud (mux s u)) * 10)\<rparr>) s"
    have "mux_baud_ok t"
      using Cons.prems(1) by (simp add: t_def mux_baud_ok_def mux_store_def)
    from Cons.IH [OF this] Cons.prems(2) obtain t' where
      "mux_poll_fds avail now us t = Inr t'" by auto
    moreover have "mux_set_read_ready now u s = Inr t"
      using True b by (simp add: mux_set_read_ready_def m t_def Let_def)
    moreover have "mux_get_in_poll_fd u s = Inr (in_fd (mux s u))"
      using True by (simp add: mux_get_in_poll_fd_def m)
    ultimately show ?thesis using True by simp
  next
    case False
    from Cons.IH [OF Cons.prems(1)] Cons.prems(2) obtain t' where
      t': "mux_poll_fds avail now us s = Inr t'" by auto
    have "\<exists>fd. mux_get_in_poll_fd u s = Inr fd \<and> \<not> (fd \<noteq> - 1 \<and> avail u)"
      using False by (auto simp add: mux_get_in_poll_fd_def m)
    with t' show ?thesis by auto
  qed
qed

lemma mux_poll_returns:
  assumes "mux_baud_ok s" "mux_armed_ok s"
  shows "\<exists>s'. mux_poll now avail s = Inr s'"
proof -
  have r: "\<forall>u\<in>set [0..<NUM_MUX_UNITS]. u < NUM_MUX_UNITS" by simp
  from mux_events_ok [OF assms(2) r, of now] obtain t where
    t: "mux_events now [0..<NUM_MUX_UNITS] s = Inr t" "\<forall>w. baud (mux t w) = baud (mux s w)"
    by blast
  have "mux_baud_ok (t\<lparr>poll_count := poll_count t + 1\<rparr>)"
    using assms(1) t(2) by (simp add: mux_baud_ok_def)
  from mux_poll_fds_ok [OF this r, of avail now] obtain t' where
    "mux_poll_fds avail now [0..<NUM_MUX_UNITS] (t\<lparr>poll_count := poll_count t + 1\<rparr>) = Inr t'"
    by blast
  with t(1) show ?thesis
    by (simp add: mux_poll_def Let_def)
qed

lemma mux_init_unit:
  assumes "u < NUM_MUX_UNITS"
  shows "mux mux_init u =
           \<lparr>in_fd = - 1, out_fd = - 1, mode = 0, status = MUX_TX_READY, lastc = 0xFF,
            baud = 9600, tx_done = 0, rx_ready_time = 0, tx_done_time = 0\<rparr>"
proof -
  from assms have "u = 0 \<or> u = 1 \<or> u = 2 \<or> u = 3" by (auto simp add: NUM_MUX_UNITS_def)
  then show ?thesis
    by (elim disjE)
      (simp_all add: mux_init_def mux_reset_def mux_zero_def mux_store_def mux_reset_unit_def
        upt4 Let_def)
qed

lemma mux_init_ok: "mux_baud_ok mux_init \<and> mux_armed_ok mux_init"
  by (simp add: mux_baud_ok_def mux_armed_ok_def mux_init_unit)


text \<open>
  Claim C6, as the code has it. After every polling tick that returns, \<open>irq_cause\<close> is
  the idle value \<open>- 1\<close> or the lowest-numbered pending source of RX0, TX0, RX1, TX1,
  RX2, TX2, RX3, TX3. It is idle when no source is pending and whenever interrupts are
  disabled (\<open>mux_assert_irq\<close> latches nothing then); with interrupts enabled it is the
  lowest-numbered pending source whenever there is one. In particular, with interrupts
  enabled, TX pending on port 0 and RX pending on port 2 (and RX0 not pending), the tick
  latches TX0, cause 1, not RX2, cause 4.
\<close>

theorem mux_poll_arbitration:
  assumes "mux_poll now avail s = Inr s'"
  shows "(irq_cause s' = - 1 \<or> (\<exists>n. mux_lowest_pending s' n \<and> irq_cause s' = int n)) \<and>
         ((\<forall>n<8. \<not> mux_source_pending s' n) \<longrightarrow> irq_cause s' = - 1) \<and>
         (irq_enabled s' = 0 \<longrightarrow> irq_cause s' = - 1) \<and>
         (irq_enabled s' \<noteq> 0 \<longrightarrow> (\<forall>n. mux_lowest_pending s' n \<longrightarrow> irq_cause s' = int n)) \<and>
         (irq_enabled s' \<noteq> 0 \<and> mux_tx_pending s' 0 \<and> mux_rx_pending s' 2 \<and>
            \<not> mux_rx_pending s' 0 \<longrightarrow> irq_cause s' = 1 \<and> irq_cause s' \<noteq> 4)"
proof -
  from mux_poll_result [OF assms] obtain t where t: "s' = mux_arbitrate [0..<NUM_MUX_UNITS] t"
    by blast
  have p: "mux_source_pending s' = mux_source_pending t"
    unfolding t by (rule mux_arbitrate_pending)
  have l: "mux_lowest_pending s' = mux_lowest_pending t"
    by (rule ext) (simp add: mux_lowest_pending_def p)
  have e: "irq_enabled s' = irq_enabled t"
    unfolding t by (simp add: mux_arbitrate_units)
  have a: "irq_cause s' = - 1 \<or> (\<exists>n. mux_lowest_pending s' n \<and> irq_cause s' = int n)"
    unfolding l unfolding t by (rule mux_arbitrate_cases)
  have b: "(\<forall>n<8. \<not> mux_source_pending s' n) \<longrightarrow> irq_cause s' = - 1"
    unfolding p unfolding t using mux_arbitrate_idle [of t] by blast
  have c: "irq_enabled s' = 0 \<longrightarrow> irq_cause s' = - 1"
    unfolding e unfolding t using mux_arbitrate_idle [of t] by blast
  have d: "irq_enabled s' \<noteq> 0 \<longrightarrow> (\<forall>n. mux_lowest_pending s' n \<longrightarrow> irq_cause s' = int n)"
    unfolding e l unfolding t using mux_arbitrate_lowest [of t] by blast
  have f: "irq_enabled s' \<noteq> 0 \<and> mux_tx_pending s' 0 \<and> mux_rx_pending s' 2 \<and>
            \<not> mux_rx_pending s' 0 \<longrightarrow> irq_cause s' = 1 \<and> irq_cause s' \<noteq> 4"
  proof
    assume h: "irq_enabled s' \<noteq> 0 \<and> mux_tx_pending s' 0 \<and> mux_rx_pending s' 2 \<and>
            \<not> mux_rx_pending s' 0"
    have "mux_lowest_pending s' 1"
      using h by (simp add: mux_lowest_pending_def mux_source_pending_def)
    with d h have "irq_cause s' = int 1" by blast
    then show "irq_cause s' = 1 \<and> irq_cause s' \<noteq> 4" by simp
  qed
  show ?thesis using a b c d f by (intro conjI)
qed

lemma mux_demo_fields:
  "irq_enabled mux_demo = 1" "poll_count mux_demo = 0" "irq_level mux_demo = 0"
  "cpu_irq mux_demo = []"
  "mux mux_demo 0 = \<lparr>in_fd = - 1, out_fd = - 1, mode = 0, status = 2, lastc = 0xFF,
      baud = 9600, tx_done = 1, rx_ready_time = 0, tx_done_time = 0\<rparr>"
  "mux mux_demo (Suc 0) = \<lparr>in_fd = - 1, out_fd = - 1, mode = 0, status = 2, lastc = 0xFF,
      baud = 9600, tx_done = 0, rx_ready_time = 0, tx_done_time = 0\<rparr>"
  "mux mux_demo 2 = \<lparr>in_fd = 5, out_fd = 5, mode = 1, status = 3, lastc = 0xFF,
      baud = 9600, tx_done = 0, rx_ready_time = 0, tx_done_time = 0\<rparr>"
  "mux mux_demo 3 = \<lparr>in_fd = - 1, out_fd = - 1, mode = 0, status = 2, lastc = 0xFF,
      baud = 9600, tx_done = 0, rx_ready_time = 0, tx_done_time = 0\<rparr>"
  by (simp_all add: mux_demo_def mux_init_def mux_reset_def mux_zero_def mux_store_def
      mux_reset_unit_def upt4 MUX_TX_READY_def MUX_RX_READY_def Let_def)

lemma mux_demo_poll_any:
  "mux_poll 0 (\<lambda>u. False) (mux_demo\<lparr>irq_enabled := e\<rparr>) =
     Inr (mux_arbitrate [0..<NUM_MUX_UNITS]
            (cpu_deassert_irq 0 (mux_demo\<lparr>irq_enabled := e, poll_count := 1\<rparr>)))"
proof -
  let ?s = "mux_demo\<lparr>irq_enabled := e\<rparr>"
  have ev: "mux_process_events 0 u ?s = Inr ?s" if "u \<in> {0, 1, 2, 3}" for u
    using that by (auto simp add: mux_process_events_def mux_demo_fields Let_def)
  have e: "mux_events 0 [0..<NUM_MUX_UNITS] ?s = Inr ?s"
    unfolding upt4 by (simp add: ev)
  have fd: "mux_get_in_poll_fd u (?s\<lparr>poll_count := 1\<rparr>) = Inr (- 1)"
    if "u \<in> {0, 1, 2, 3}" for u
    using that
    by (auto simp add: mux_get_in_poll_fd_def mux_unit_def NUM_MUX_UNITS_def mux_demo_fields
        MUX_RX_READY_def)
  have p: "mux_poll_fds (\<lambda>u. False) 0 [0..<NUM_MUX_UNITS] (?s\<lparr>poll_count := 1\<rparr>) =
      Inr (?s\<lparr>poll_count := 1\<rparr>)"
    unfolding upt4 by (simp add: fd)
  show ?thesis
    unfolding mux_poll_def e using p by (simp add: Let_def mux_demo_fields)
qed

lemma mux_demo_poll:
  "mux_poll 0 (\<lambda>u. False) mux_demo =
     Inr (mux_arbitrate [0..<NUM_MUX_UNITS] (cpu_deassert_irq 0 (mux_demo\<lparr>poll_count := 1\<rparr>)))"
proof -
  have "mux_demo\<lparr>irq_enabled := 1\<rparr> = mux_demo" by (simp add: mux_demo_def)
  with mux_demo_poll_any [of 1] show ?thesis by simp
qed

theorem mux_poll_arbitration_witness:
  "\<exists>s'. mux_poll 0 (\<lambda>u. False) mux_demo = Inr s' \<and> irq_enabled s' = 1 \<and>
     mux_tx_pending s' 0 \<and> mux_rx_pending s' 2 \<and> \<not> mux_rx_pending s' 0 \<and>
     mux_lowest_pending s' 1 \<and> irq_cause s' = 1"
proof -
  define s' where "s' = mux_arbitrate [0..<NUM_MUX_UNITS] (cpu_deassert_irq 0 (mux_demo\<lparr>poll_count := 1\<rparr>))"
  have r: "mux_poll 0 (\<lambda>u. False) mux_demo = Inr s'"
    unfolding s'_def by (rule mux_demo_poll)
  have m: "mux s' = mux mux_demo" and e: "irq_enabled s' = 1"
    unfolding s'_def by (simp_all add: mux_arbitrate_units cpu_deassert_irq_def mux_demo_fields)
  have tx: "mux_tx_pending s' 0" and rx: "mux_rx_pending s' 2" and nrx: "\<not> mux_rx_pending s' 0"
    by (simp_all add: mux_tx_pending_def mux_rx_pending_def m mux_demo_fields MUX_RX_READY_def)
  have low: "mux_lowest_pending s' 1"
    using tx nrx by (simp add: mux_lowest_pending_def mux_source_pending_def)
  from mux_poll_arbitration [OF r] e tx rx nrx have "irq_cause s' = 1" by simp
  with r e tx rx nrx low show ?thesis by blast
qed

text \<open>
  Claim C6 as stated (the lowest-numbered pending source, or idle when none is pending)
  fails while interrupts are disabled: TX0 and RX2 are pending, TX0 is the
  lowest-numbered pending source, and the tick leaves \<open>irq_cause\<close> idle.
\<close>

theorem mux_poll_disabled_counterexample:
  "\<exists>s'. mux_poll 0 (\<lambda>u. False) (mux_demo\<lparr>irq_enabled := 0\<rparr>) = Inr s' \<and>
     irq_enabled s' = 0 \<and> mux_source_pending s' 1 \<and> mux_source_pending s' 4 \<and>
     mux_lowest_pending s' 1 \<and> irq_cause s' = - 1 \<and> irq_cause s' \<noteq> 1"
proof -
  define s' where "s' = mux_arbitrate [0..<NUM_MUX_UNITS]
    (cpu_deassert_irq 0 (mux_demo\<lparr>irq_enabled := 0, poll_count := 1\<rparr>))"
  have r: "mux_poll 0 (\<lambda>u. False) (mux_demo\<lparr>irq_enabled := 0\<rparr>) = Inr s'"
    unfolding s'_def by (rule mux_demo_poll_any)
  have m: "mux s' = mux mux_demo" and e: "irq_enabled s' = 0"
    unfolding s'_def by (simp_all add: mux_arbitrate_units cpu_deassert_irq_def)
  have p: "mux_source_pending s' 1" "mux_source_pending s' 4" "\<not> mux_source_pending s' 0"
    by (simp_all add: mux_source_pending_def mux_tx_pending_def mux_rx_pending_def m
        mux_demo_fields MUX_RX_READY_def)
  have low: "mux_lowest_pending s' 1"
    using p by (simp add: mux_lowest_pending_def)
  have c: "irq_cause s' = - 1"
    unfolding s'_def by (rule mux_arbitrate_idle) (simp add: cpu_deassert_irq_def)
  show ?thesis using r e p low c by auto
qed


section \<open>MUX: register reads\<close>

lemma mux_unit_in_range: "u < NUM_MUX_UNITS \<Longrightarrow> mux_unit s (int u) = Inr (mux s u)"
  by (simp add: mux_unit_def)

lemma mux_unit_Inr: "mux_unit s i = Inr m \<Longrightarrow> 0 \<le> i \<and> i < int NUM_MUX_UNITS \<and> m = mux s (nat i)"
  by (auto simp add: mux_unit_def split: if_splits)

lemma cause_unit_range: "0 \<le> drop_bit 1 ((k::int) AND 6) \<and> drop_bit 1 (k AND 6) < 4"
proof -
  have "0 \<le> k AND 6" by simp
  moreover have "k AND 6 \<le> 6" by (rule AND_upper2) simp
  ultimately have "0 \<le> (k AND 6) div 2 \<and> (k AND 6) div 2 < 4" by linarith
  then show ?thesis by (simp add: drop_bit_eq_div)
qed

lemma mux_read_cause:
  "mux_read rd 0xF20F s =
     Inr (word_of_int (irq_cause s),
          if irq_cause s AND 1 \<noteq> 0
          then mux_store (nat (drop_bit 1 (irq_cause s AND 6)))
                 ((mux s (nat (drop_bit 1 (irq_cause s AND 6))))\<lparr>tx_done := 0\<rparr>) s
          else s)"
  using cause_unit_range [of "irq_cause s"]
  by (simp add: mux_read_def mux_unit_def MUX_IRQ_TX_def MUX_UNIT_MASK_def NUM_MUX_UNITS_def
      Let_def)

lemma mux_store_status:
  "status (mux (mux_store i (m\<lparr>tx_done := x\<rparr>) s) u) =
     (if u = i then status m else status (mux s u))"
  by (simp add: mux_store_def)

lemma mux_read_cause_status:
  "\<exists>v s'. mux_read rd 0xF20F s = Inr (v, s') \<and> (\<forall>u. status (mux s' u) = status (mux s u))"
  unfolding mux_read_cause by (simp add: mux_store_def)

lemma tx_cause_decode:
  assumes "u < NUM_MUX_UNITS"
  shows "int (2 * u + 1) AND 1 \<noteq> 0 \<and> nat (drop_bit 1 (int (2 * u + 1) AND 6)) = u"
proof -
  from assms have "u = 0 \<or> u = 1 \<or> u = 2 \<or> u = 3" by (auto simp add: NUM_MUX_UNITS_def)
  then show ?thesis by (elim disjE) simp_all
qed

lemma mux_read_cause_tx:
  assumes "u < NUM_MUX_UNITS" "irq_cause s = int (2 * u + 1)"
  shows "mux_read rd 0xF20F s =
           Inr (word_of_int (irq_cause s), mux_store u ((mux s u)\<lparr>tx_done := 0\<rparr>) s)"
  unfolding mux_read_cause using tx_cause_decode [OF assms(1)] unfolding assms(2) [symmetric]
  by simp

lemma next_char_status:
  "next_char rd unit s = Inr (d, t) \<Longrightarrow> status (mux t u) = status (mux s u)"
  by (auto simp add: next_char_def mux_store_def Let_def dest!: mux_unit_Inr
      split: sum.splits if_splits read_result.splits)

lemma rx_ready_cleared: "(x AND NOT MUX_RX_READY) AND MUX_RX_READY = (0::u8)"
  by (simp add: and.assoc)

lemma tx_ready_keeps_rx:
  "(x AND NOT MUX_TX_READY) AND MUX_RX_READY = x AND (MUX_RX_READY :: u8)"
proof -
  have "NOT MUX_TX_READY AND MUX_RX_READY = MUX_RX_READY"
    by (simp add: MUX_TX_READY_def MUX_RX_READY_def)
  then show ?thesis by (simp add: and.assoc)
qed

lemma mux_unit_send_rx:
  assumes "mux_unit_send now unit v s = Inr s'"
  shows "mux_rx_pending s' u = mux_rx_pending s u"
proof -
  from assms obtain m where m: "mux_unit s (int unit) = Inr m"
    by (auto simp add: mux_unit_send_def split: sum.splits)
  from mux_unit_Inr [OF m] have mu: "m = mux s unit" by simp
  from assms have "mux s' = (mux s)(unit := m\<lparr>status := status m AND NOT MUX_TX_READY,
      tx_done_time := to_int64 (now + 1000000000 div baud m * 10)\<rparr>)"
    unfolding mux_unit_send_def m
    by (auto simp add: Let_def mux_store_def split: if_splits)
  then show ?thesis
    by (simp add: mux_rx_pending_def mu tx_ready_keeps_rx)
qed

lemma mux_write_rx:
  assumes "mux_write now addr v s = Inr s'" "mux_write_mode addr \<noteq> 0xF"
  shows "mux_rx_pending s' u = mux_rx_pending s u"
proof (cases "mux_write_unit addr \<le> NUM_MUX_UNITS \<and> mux_write_mode addr = 1")
  case True
  with assms(1) have "mux_unit_send now (mux_write_unit addr) v s = Inr s'"
    by (simp add: mux_write_def Let_def)
  then show ?thesis by (rule mux_unit_send_rx)
next
  case False
  with assms have "\<forall>w. status (mux s' w) = status (mux s w)"
    by (auto simp add: mux_write_def Let_def mux_store_def mux_enable_irq_def
        dest!: mux_unit_Inr split: if_splits sum.splits)
  then show ?thesis by (simp add: mux_rx_pending_def)
qed

lemma mux_reset_at:
  assumes "u < NUM_MUX_UNITS"
  shows "mux (mux_reset s) u = mux_reset_unit (mux s u)"
proof -
  from assms have "u = 0 \<or> u = 1 \<or> u = 2 \<or> u = 3" by (auto simp add: NUM_MUX_UNITS_def)
  then show ?thesis
    by (elim disjE) (simp_all add: mux_reset_def upt4 mux_store_def Let_def)
qed

lemma mux_read_status_other:
  assumes "mux_read rd addr s = Inr (v, s')"
    and "\<not> (addr \<noteq> 0xF20F \<and> mux_read_mode addr = 1 \<and> mux_read_unit addr = u)"
  shows "status (mux s' u) = status (mux s u)"
proof (cases "addr = 0xF20F")
  case True
  with assms(1) show ?thesis
    unfolding True mux_read_cause by (auto simp add: mux_store_def)
next
  case False
  show ?thesis
  proof (cases "mux_read_unit addr > NUM_MUX_UNITS \<or> mux_read_mode addr \<noteq> 1")
    case True
    with assms(1) False have "s' = s"
      by (auto simp add: mux_read_def Let_def split: sum.splits if_splits)
    then show ?thesis by simp
  next
    case c: False
    with assms(2) False have ne: "mux_read_unit addr \<noteq> u" by blast
    from assms(1) False c obtain d t m where
      n: "next_char rd (mux_read_unit addr) s = Inr (d, t)"
      and s': "s' = mux_store (mux_read_unit addr)
                 (m\<lparr>status := status m AND NOT MUX_RX_READY\<rparr>) t"
      by (auto simp add: mux_read_def Let_def split: sum.splits if_splits)
    have "status (mux s' u) = status (mux t u)"
      unfolding s' using ne by (simp add: mux_store_def)
    with next_char_status [OF n] show ?thesis by simp
  qed
qed

lemma mux_read_data_clears:
  assumes "addr \<noteq> 0xF20F" "mux_read_mode addr = 1" "mux_read_unit addr < NUM_MUX_UNITS"
    and "mux_read rd addr s = Inr (v, s')"
  shows "\<not> mux_rx_pending s' (mux_read_unit addr)"
proof -
  from assms obtain d t m where
    s': "s' = mux_store (mux_read_unit addr)
               (m\<lparr>status := status m AND NOT MUX_RX_READY\<rparr>) t"
    by (auto simp add: mux_read_def Let_def split: sum.splits if_splits)
  show ?thesis
    unfolding s' by (simp add: mux_rx_pending_def mux_store_def rx_ready_cleared)
qed

text \<open>
  Claim C7, as the code has it. Reading the cause register 0xF20F while TX of unit \<open>u\<close>
  is the latched cause returns the cause and clears that unit's \<open>tx_done\<close>; a read of the
  cause register changes no unit's status byte, so every pending \<open>RX_READY\<close> stays set.
  Among register reads, \<open>RX_READY\<close> of a unit is cleared only by a read of that unit's
  data register, and every such read that returns clears it, whether or not a byte was
  obtained; among register writes only the card reset clears it.
\<close>

theorem mux_read_cause_ack:
  "(\<forall>u<NUM_MUX_UNITS. irq_cause s = int (2 * u + 1) \<longrightarrow>
      mux_read rd 0xF20F s =
        Inr (word_of_int (irq_cause s), mux_store u ((mux s u)\<lparr>tx_done := 0\<rparr>) s)) \<and>
   (\<exists>v s'. mux_read rd 0xF20F s = Inr (v, s') \<and>
      (\<forall>u. status (mux s' u) = status (mux s u)) \<and>
      (\<forall>u. mux_rx_pending s' u = mux_rx_pending s u)) \<and>
   (\<forall>addr v s' u. mux_read rd addr s = Inr (v, s') \<and> mux_rx_pending s u \<and>
      \<not> mux_rx_pending s' u \<longrightarrow>
      addr \<noteq> 0xF20F \<and> mux_read_mode addr = 1 \<and> mux_read_unit addr = u) \<and>
   (\<forall>addr v s'. addr \<noteq> 0xF20F \<and> mux_read_mode addr = 1 \<and>
      mux_read_unit addr < NUM_MUX_UNITS \<and> mux_read rd addr s = Inr (v, s') \<longrightarrow>
      \<not> mux_rx_pending s' (mux_read_unit addr)) \<and>
   (\<forall>now addr v s' u. mux_write now addr v s = Inr s' \<and> mux_rx_pending s u \<and>
      \<not> mux_rx_pending s' u \<longrightarrow> mux_write_mode addr = 0xF)"
proof -
  have a: "\<forall>u<NUM_MUX_UNITS. irq_cause s = int (2 * u + 1) \<longrightarrow>
      mux_read rd 0xF20F s =
        Inr (word_of_int (irq_cause s), mux_store u ((mux s u)\<lparr>tx_done := 0\<rparr>) s)"
    using mux_read_cause_tx by blast
  from mux_read_cause_status [of rd s] obtain v s' where
    r: "mux_read rd 0xF20F s = Inr (v, s')" and st: "\<forall>u. status (mux s' u) = status (mux s u)"
    by blast
  from st have "\<forall>u. mux_rx_pending s' u = mux_rx_pending s u"
    by (simp add: mux_rx_pending_def)
  with r st have b: "\<exists>v s'. mux_read rd 0xF20F s = Inr (v, s') \<and>
      (\<forall>u. status (mux s' u) = status (mux s u)) \<and>
      (\<forall>u. mux_rx_pending s' u = mux_rx_pending s u)"
    by blast
  have c: "\<forall>addr v s' u. mux_read rd addr s = Inr (v, s') \<and> mux_rx_pending s u \<and>
      \<not> mux_rx_pending s' u \<longrightarrow>
      addr \<noteq> 0xF20F \<and> mux_read_mode addr = 1 \<and> mux_read_unit addr = u"
  proof (intro allI impI)
    fix addr v s' u
    assume h: "mux_read rd addr s = Inr (v, s') \<and> mux_rx_pending s u \<and>
      \<not> mux_rx_pending s' u"
    show "addr \<noteq> 0xF20F \<and> mux_read_mode addr = 1 \<and> mux_read_unit addr = u"
    proof (rule ccontr)
      assume "\<not> (addr \<noteq> 0xF20F \<and> mux_read_mode addr = 1 \<and> mux_read_unit addr = u)"
      with h have "status (mux s' u) = status (mux s u)"
        using mux_read_status_other by blast
      with h show False by (simp add: mux_rx_pending_def)
    qed
  qed
  have d: "\<forall>addr v s'. addr \<noteq> 0xF20F \<and> mux_read_mode addr = 1 \<and>
      mux_read_unit addr < NUM_MUX_UNITS \<and> mux_read rd addr s = Inr (v, s') \<longrightarrow>
      \<not> mux_rx_pending s' (mux_read_unit addr)"
    using mux_read_data_clears by blast
  have e: "\<forall>now addr v s' u. mux_write now addr v s = Inr s' \<and> mux_rx_pending s u \<and>
      \<not> mux_rx_pending s' u \<longrightarrow> mux_write_mode addr = 0xF"
    using mux_write_rx by blast
  show ?thesis using a b c d e by (intro conjI)
qed

theorem mux_read_cause_ack_witness:
  "irq_cause (mux_demo\<lparr>irq_cause := 1\<rparr>) = 1 \<and>
   mux_tx_pending (mux_demo\<lparr>irq_cause := 1\<rparr>) 0 \<and>
   mux_rx_pending (mux_demo\<lparr>irq_cause := 1\<rparr>) 2 \<and>
   mux_read ReadAgain 0xF20F (mux_demo\<lparr>irq_cause := 1\<rparr>) =
     Inr (1, mux_store 0 ((mux mux_demo 0)\<lparr>tx_done := 0\<rparr>) (mux_demo\<lparr>irq_cause := 1\<rparr>)) \<and>
   \<not> mux_tx_pending
       (mux_store 0 ((mux mux_demo 0)\<lparr>tx_done := 0\<rparr>) (mux_demo\<lparr>irq_cause := 1\<rparr>)) 0 \<and>
   mux_rx_pending
       (mux_store 0 ((mux mux_demo 0)\<lparr>tx_done := 0\<rparr>) (mux_demo\<lparr>irq_cause := 1\<rparr>)) 2"
proof -
  let ?s = "mux_demo\<lparr>irq_cause := 1\<rparr>"
  have u: "(0::nat) < NUM_MUX_UNITS" by (simp add: NUM_MUX_UNITS_def)
  have c: "irq_cause ?s = int (2 * 0 + 1)" by simp
  from mux_read_cause_ack [of ?s ReadAgain] have
    "\<forall>u<NUM_MUX_UNITS. irq_cause ?s = int (2 * u + 1) \<longrightarrow>
      mux_read ReadAgain 0xF20F ?s =
        Inr (word_of_int (irq_cause ?s), mux_store u ((mux ?s u)\<lparr>tx_done := 0\<rparr>) ?s)"
    by (rule conjunct1)
  with u c have r: "mux_read ReadAgain 0xF20F ?s =
        Inr (word_of_int (irq_cause ?s), mux_store 0 ((mux ?s 0)\<lparr>tx_done := 0\<rparr>) ?s)"
    by blast
  have r': "mux_read ReadAgain 0xF20F ?s =
     Inr (1, mux_store 0 ((mux mux_demo 0)\<lparr>tx_done := 0\<rparr>) ?s)"
    unfolding r by simp
  have p: "mux_tx_pending ?s 0" "mux_rx_pending ?s 2"
    "\<not> mux_tx_pending (mux_store 0 ((mux mux_demo 0)\<lparr>tx_done := 0\<rparr>) ?s) 0"
    "mux_rx_pending (mux_store 0 ((mux mux_demo 0)\<lparr>tx_done := 0\<rparr>) ?s) 2"
    by (simp_all add: mux_tx_pending_def mux_rx_pending_def mux_store_def mux_demo_fields
        MUX_RX_READY_def)
  show ?thesis using r' p by simp
qed

text \<open>
  Claim C7 as stated (\<open>RX_READY\<close> is cleared only by a successful data read) fails
  in two ways. On the raw-mode port 2 with \<open>RX_READY\<close> set, a read of its data register
  0xF205 whose \<open>read\<close> returns 0 obtains no byte (the code substitutes 0) and still
  clears \<open>RX_READY\<close>; and a write to the reset register 0xF20F clears it with no data
  read at all.
\<close>

theorem mux_read_no_byte_counterexample:
  "mux_rx_pending mux_demo 2 \<and>
   (case mux_read ReadEof 0xF205 mux_demo of
      Inl e \<Rightarrow> False
    | Inr (v, s') \<Rightarrow> v = 0 \<and> \<not> mux_rx_pending s' 2 \<and> status (mux s' 2) = MUX_TX_READY) \<and>
   (case mux_write 0 0xF20F 0 mux_demo of
      Inl e \<Rightarrow> False
    | Inr s' \<Rightarrow> \<not> mux_rx_pending s' 2 \<and> status (mux s' 2) = MUX_TX_READY)"
proof -
  have d: "mux_read_mode 0xF205 = 1" "mux_read_unit 0xF205 = 2"
    "mux_write_mode 0xF20F = 0xF" "mux_write_unit 0xF20F = 0"
    by (simp_all add: mux_read_mode_def mux_read_unit_def mux_write_mode_def
        mux_write_unit_def mux_card_def Let_def drop_bit_eq_div)
  have n: "next_char ReadEof 2 mux_demo =
      Inr (0, mux_store 2 ((mux mux_demo 2)\<lparr>lastc := 0\<rparr>) mux_demo)"
    by (simp add: next_char_def mux_unit_def NUM_MUX_UNITS_def mux_demo_fields
        MUX_RX_READY_def Let_def)
  have p: "mux_rx_pending mux_demo 2"
    by (simp add: mux_rx_pending_def mux_demo_fields MUX_RX_READY_def)
  have r: "case mux_read ReadEof 0xF205 mux_demo of
      Inl e \<Rightarrow> False
    | Inr (v, s') \<Rightarrow> v = 0 \<and> \<not> mux_rx_pending s' 2 \<and> status (mux s' 2) = MUX_TX_READY"
    by (simp add: mux_read_def d n Let_def mux_unit_def NUM_MUX_UNITS_def mux_store_def
        mux_rx_pending_def mux_demo_fields MUX_RX_READY_def MUX_TX_READY_def)
  have r2: "mux (mux_reset t) 2 = mux_reset_unit (mux t 2)" for t
    by (rule mux_reset_at) (simp add: NUM_MUX_UNITS_def)
  have w: "case mux_write 0 0xF20F 0 mux_demo of
      Inl e \<Rightarrow> False
    | Inr s' \<Rightarrow> \<not> mux_rx_pending s' 2 \<and> status (mux s' 2) = MUX_TX_READY"
    by (simp add: mux_write_def d Let_def r2 mux_reset_unit_def
        mux_rx_pending_def MUX_RX_READY_def MUX_TX_READY_def)
  show ?thesis using p r w by (intro conjI)
qed


section \<open>MUX: unit bounds\<close>

lemma mux_decode_210:
  "mux_read_unit 0xF210 = 4" "mux_read_mode 0xF210 = 0"
  "mux_read_unit 0xF211 = 4" "mux_read_mode 0xF211 = 1"
  "mux_write_unit 0xF211 = 4" "mux_write_mode 0xF211 = 1"
  "mux_read_unit 0xF212 = 5" "mux_write_unit 0xF213 = 5"
  by (simp_all add: mux_read_mode_def mux_read_unit_def mux_write_mode_def mux_write_unit_def
      mux_card_def Let_def drop_bit_eq_div)

lemma mux_unit_4: "mux_unit s 4 = Inl (OutOfBounds 4)"
  by (simp add: mux_unit_def NUM_MUX_UNITS_def)

text \<open>
  Claim C9. The bounds checks of \<open>mux_read\<close> and \<open>mux_write\<close> reject a unit only when
  it is greater than \<open>NUM_MUX_UNITS\<close>. The addresses 0xF210 and 0xF211 decode to unit 4,
  which equals the unit count: the check lets them through, and the status read, the
  data read and the data write go on to index the four-element array at 4. Unit 5
  (0xF212, 0xF213) is rejected with no access and no change.
\<close>

theorem mux_unit_check_admits_unit_count:
  "mux_read_unit 0xF210 = NUM_MUX_UNITS \<and> mux_read_unit 0xF211 = NUM_MUX_UNITS \<and>
   mux_write_unit 0xF211 = NUM_MUX_UNITS \<and>
   mux_read rd 0xF210 s = Inl (OutOfBounds (int NUM_MUX_UNITS)) \<and>
   mux_read rd 0xF211 s = Inl (OutOfBounds (int NUM_MUX_UNITS)) \<and>
   mux_write now 0xF211 v s = Inl (OutOfBounds (int NUM_MUX_UNITS)) \<and>
   mux_read_unit 0xF212 = NUM_MUX_UNITS + 1 \<and> mux_read rd 0xF212 s = Inr (0, s) \<and>
   mux_write_unit 0xF213 = NUM_MUX_UNITS + 1 \<and> mux_write now 0xF213 v s = Inr s"
proof -
  have r0: "mux_read rd 0xF210 s = Inl (OutOfBounds 4)"
    by (simp add: mux_read_def mux_decode_210 mux_unit_4 NUM_MUX_UNITS_def Let_def)
  have r1: "mux_read rd 0xF211 s = Inl (OutOfBounds 4)"
    by (simp add: mux_read_def mux_decode_210 next_char_def mux_unit_4 NUM_MUX_UNITS_def Let_def)
  have w1: "mux_write now 0xF211 v s = Inl (OutOfBounds 4)"
    by (simp add: mux_write_def mux_decode_210 mux_unit_send_def mux_unit_4 NUM_MUX_UNITS_def
        Let_def)
  have r2: "mux_read rd 0xF212 s = Inr (0, s)"
    by (simp add: mux_read_def mux_decode_210 NUM_MUX_UNITS_def Let_def)
  have w3: "mux_write now 0xF213 v s = Inr s"
    by (simp add: mux_write_def mux_decode_210 NUM_MUX_UNITS_def Let_def)
  show ?thesis
    using r0 r1 w1 r2 w3 by (simp add: mux_decode_210 NUM_MUX_UNITS_def)
qed

theorem mux_unit_check_admits_unit_count_witness:
  "mux_read ReadAgain 0xF210 mux_demo = Inl (OutOfBounds 4) \<and>
   mux_read (ReadByte 0x41) 0xF211 mux_demo = Inl (OutOfBounds 4) \<and>
   mux_write 0 0xF211 0x41 mux_demo = Inl (OutOfBounds 4) \<and>
   mux_read ReadAgain 0xF212 mux_demo = Inr (0, mux_demo)"
  using mux_unit_check_admits_unit_count [where rd = ReadAgain and s = mux_demo and now = 0
      and v = "0x41"]
    mux_unit_check_admits_unit_count [where rd = "ReadByte 0x41" and s = mux_demo and now = 0
      and v = "0x41"]
  by (simp add: NUM_MUX_UNITS_def)

text \<open>
  Claim C10. A write of \<open>v\<close> to a software-forced-TX-done register (low nibble 0xC, on
  a card whose base unit passes the unit check) sets \<open>tx_done\<close> of port \<open>v - 1\<close> with no
  check of \<open>v\<close>. For \<open>v\<close> from 1 to 4 the index is a port of the array: afterwards that
  port's \<open>tx_done\<close> is 1 and nothing else has changed. For \<open>v = 0\<close> the index is \<open>- 1\<close>
  and for \<open>v > 4\<close> it is at least 4, both outside the four-element array.
\<close>

theorem mux_forced_tx_done:
  assumes "mux_write_mode addr = 0xC" "mux_write_unit addr \<le> NUM_MUX_UNITS"
  shows "mux_write now addr v s =
           (if 1 \<le> uint v \<and> uint v \<le> 4
            then Inr (mux_store (nat (uint v - 1)) ((mux s (nat (uint v - 1)))\<lparr>tx_done := 1\<rparr>) s)
            else Inl (OutOfBounds (uint v - 1))) \<and>
         (1 \<le> uint v \<and> uint v \<le> 4 \<longleftrightarrow> 0 \<le> uint v - 1 \<and> uint v - 1 < int NUM_MUX_UNITS) \<and>
         (1 \<le> uint v \<and> uint v \<le> 4 \<longrightarrow>
            (\<exists>s'. mux_write now addr v s = Inr s' \<and>
               tx_done (mux s' (nat (uint v - 1))) = 1 \<and>
               mux s' (nat (uint v - 1)) = (mux s (nat (uint v - 1)))\<lparr>tx_done := 1\<rparr> \<and>
               (\<forall>u. u \<noteq> nat (uint v - 1) \<longrightarrow> mux s' u = mux s u) \<and>
               s'\<lparr>mux := mux s\<rparr> = s)) \<and>
         (\<not> (1 \<le> uint v \<and> uint v \<le> 4) \<longrightarrow>
            mux_write now addr v s = Inl (OutOfBounds (uint v - 1)) \<and>
            (uint v - 1 < 0 \<or> int NUM_MUX_UNITS \<le> uint v - 1))"
proof -
  have w: "mux_write now addr v s =
           (if 1 \<le> uint v \<and> uint v \<le> 4
            then Inr (mux_store (nat (uint v - 1)) ((mux s (nat (uint v - 1)))\<lparr>tx_done := 1\<rparr>) s)
            else Inl (OutOfBounds (uint v - 1)))"
    using assms by (simp add: mux_write_def mux_unit_def NUM_MUX_UNITS_def Let_def)
  have r: "1 \<le> uint v \<and> uint v \<le> 4 \<longleftrightarrow>
      0 \<le> uint v - 1 \<and> uint v - 1 < int NUM_MUX_UNITS"
    by (simp add: NUM_MUX_UNITS_def) linarith
  have ok: "1 \<le> uint v \<and> uint v \<le> 4 \<longrightarrow>
            (\<exists>s'. mux_write now addr v s = Inr s' \<and>
               tx_done (mux s' (nat (uint v - 1))) = 1 \<and>
               mux s' (nat (uint v - 1)) = (mux s (nat (uint v - 1)))\<lparr>tx_done := 1\<rparr> \<and>
               (\<forall>u. u \<noteq> nat (uint v - 1) \<longrightarrow> mux s' u = mux s u) \<and>
               s'\<lparr>mux := mux s\<rparr> = s)"
    unfolding w by (simp add: mux_store_def)
  have bad: "\<not> (1 \<le> uint v \<and> uint v \<le> 4) \<longrightarrow>
            mux_write now addr v s = Inl (OutOfBounds (uint v - 1)) \<and>
            (uint v - 1 < 0 \<or> int NUM_MUX_UNITS \<le> uint v - 1)"
    unfolding w using r by auto
  show ?thesis using w r ok bad by (intro conjI)
qed

theorem mux_forced_tx_done_witness:
  "mux_write_mode 0xF20C = 0xC \<and> mux_write_unit 0xF20C = 0 \<and>
   mux_write 0 0xF20C 0 mux_demo = Inl (OutOfBounds (- 1)) \<and>
   mux_write 0 0xF20C 5 mux_demo = Inl (OutOfBounds 4) \<and>
   mux_write 0 0xF20C 255 mux_demo = Inl (OutOfBounds 254) \<and>
   mux_write 0 0xF20C 4 mux_demo = Inr (mux_store 3 ((mux mux_demo 3)\<lparr>tx_done := 1\<rparr>) mux_demo) \<and>
   tx_done (mux mux_demo 3) = 0 \<and>
   (\<exists>s'. mux_write 0 0xF20C 4 mux_demo = Inr s' \<and> tx_done (mux s' 3) = 1 \<and>
      mux s' 0 = mux mux_demo 0 \<and> mux s' 2 = mux mux_demo 2 \<and>
      irq_enabled s' = irq_enabled mux_demo \<and> irq_cause s' = irq_cause mux_demo)"
proof -
  have d: "mux_write_mode 0xF20C = 0xC" "mux_write_unit 0xF20C = 0"
    by (simp_all add: mux_write_mode_def mux_write_unit_def mux_card_def Let_def drop_bit_eq_div)
  have le: "mux_write_unit 0xF20C \<le> NUM_MUX_UNITS" by (simp add: d)
  note t = mux_forced_tx_done [OF d(1) le, THEN conjunct1]
  have a: "mux_write 0 0xF20C 0 mux_demo = Inl (OutOfBounds (- 1))"
    unfolding t by simp
  have b: "mux_write 0 0xF20C 5 mux_demo = Inl (OutOfBounds 4)"
    unfolding t by simp
  have c: "mux_write 0 0xF20C 255 mux_demo = Inl (OutOfBounds 254)"
    unfolding t by simp
  have e: "mux_write 0 0xF20C 4 mux_demo =
      Inr (mux_store 3 ((mux mux_demo 3)\<lparr>tx_done := 1\<rparr>) mux_demo)"
    unfolding t by simp
  have z: "tx_done (mux mux_demo 3) = 0" by (simp add: mux_demo_fields)
  have v4: "1 \<le> uint (4 :: u8) \<and> uint (4 :: u8) \<le> 4" "nat (uint (4 :: u8) - 1) = 3"
    by simp_all
  from mux_forced_tx_done [OF d(1) le, of 0 4 mux_demo, THEN conjunct2, THEN conjunct2,
      THEN conjunct1] v4(1)
  obtain s' where s': "mux_write 0 0xF20C 4 mux_demo = Inr s'"
    "tx_done (mux s' (nat (uint (4 :: u8) - 1))) = 1"
    "\<forall>u. u \<noteq> nat (uint (4 :: u8) - 1) \<longrightarrow> mux s' u = mux mux_demo u"
    "s'\<lparr>mux := mux mux_demo\<rparr> = mux_demo"
    by blast
  have f3: "tx_done (mux s' 3) = 1" using s'(2) unfolding v4(2) .
  have f0: "mux s' 0 = mux mux_demo 0" "mux s' 2 = mux mux_demo 2"
    using s'(3) unfolding v4(2) by simp_all
  have "irq_enabled (s'\<lparr>mux := mux mux_demo\<rparr>) = irq_enabled mux_demo"
    "irq_cause (s'\<lparr>mux := mux mux_demo\<rparr>) = irq_cause mux_demo"
    unfolding s'(4) by simp_all
  then have fi: "irq_enabled s' = irq_enabled mux_demo" "irq_cause s' = irq_cause mux_demo"
    by simp_all
  have ex: "\<exists>s'. mux_write 0 0xF20C 4 mux_demo = Inr s' \<and> tx_done (mux s' 3) = 1 \<and>
      mux s' 0 = mux mux_demo 0 \<and> mux s' 2 = mux mux_demo 2 \<and>
      irq_enabled s' = irq_enabled mux_demo \<and> irq_cause s' = irq_cause mux_demo"
    using s'(1) f3 f0 fi by blast
  show ?thesis using d a b c e z ex by (intro conjI)
qed


end
